theory Spec2Isabelle
  imports Main "HOL-Library.Word"
begin

section \<open>Cross-cloud storage replicator: the Lambda handler of \<open>app.py\<close>\<close>

text \<open>
  The handler copies one S3 object to a GCS bucket. Everything it does beyond computing
  a value is explicit here: exceptions are values of \<open>exn\<close> on the left of a sum,
  the object stores and the open streams are fields of a \<open>world\<close> record that each
  operation returns updated, and what the handler logs, sleeps and invokes is a list of
  \<open>effect\<close>s.
\<close>

subsection \<open>Values, exceptions, effects\<close>

text \<open>A decoded JSON document, as \<open>json.loads\<close> hands it to the handler. A Python
  \<open>str\<close> is represented by its UTF-8 bytes; the keys of a \<open>JObj\<close> are distinct; \<open>JNum\<close>
  stands for any number (the handler never computes with one).\<close>

datatype json =
    JNull
  | JBool bool
  | JNum int
  | JStr string
  | JArr "json list"
  | JObj "(string \<times> json) list"

text \<open>The exceptions that occur, all of them subclasses of Python's \<open>Exception\<close>
  (the class the handler's \<open>except Exception\<close> clauses catch).\<close>

datatype exn =
    KeyError json
  | IndexError
  | TypeError string
  | AttributeError
  | ValueError string
  | OverflowError string
  | RuntimeError string
  | OSError string
  | ParamValidationError
  | ClientError string

datatype log_line =
    Received_event json
  | Invalid_event_format exn
  | Skipping string
  | Idempotency_check_failed exn
  | Attempt_failed int exn
  | Successfully_replicated json string

datatype effect =
    Invoke
  | Sleep int
  | Log log_line

subsection \<open>\<open>retry_fn\<close>\<close>

text \<open>
  \<open>time.sleep\<close> first converts its argument to a signed 64-bit count of nanoseconds and
  raises \<open>OverflowError\<close> when the seconds do not fit, which for an integer is beyond
  \<open>9223372036\<close> in either direction; then it raises \<open>ValueError\<close> on a negative length.
  The sleep itself waits for the deadline \<open>now + secs\<close> on the monotonic clock, and the
  system refuses a deadline at or beyond the same limit with \<open>OSError\<close>. \<open>now\<close> is the
  clock's reading in whole seconds when \<open>time.sleep\<close> is called.
\<close>

definition max_sleep :: int where
  "max_sleep = 9223372036"

definition time_sleep :: "int \<Rightarrow> int \<Rightarrow> effect list \<Rightarrow> exn + effect list" where
  "time_sleep now secs tr =
     (if secs < - max_sleep \<or> max_sleep < secs
      then Inl (OverflowError ''timestamp too large to convert to C _PyTime_t'')
      else if secs < 0 then Inl (ValueError ''sleep length must be non-negative'')
      else if max_sleep \<le> now + secs then Inl (OSError ''Invalid argument'')
      else Inr (tr @ [Sleep secs]))"

text \<open>The lengths \<open>time.sleep\<close> accepts at a given reading of the clock.\<close>

definition accepts_sleep :: "int \<Rightarrow> int \<Rightarrow> bool" where
  "accepts_sleep now secs \<longleftrightarrow> 0 \<le> secs \<and> secs \<le> max_sleep \<and> now + secs < max_sleep"

text \<open>
  The body of \<open>for i in range(attempts)\<close>, from index \<open>i\<close> on. \<open>fn\<close> is a closure over
  mutable state \<open>'s\<close>; the trace records each invocation, warning and sleep.
  \<open>clock j\<close> is the reading of the monotonic clock at the sleep after attempt \<open>j + 1\<close>. A
  sleep that raises does so inside the \<open>except\<close> block and leaves \<open>retry_fn\<close>. When the range is
  exhausted, \<open>raise last_exc\<close> raises the stored exception, or \<open>TypeError\<close> when
  \<open>last_exc\<close> is still \<open>None\<close>.
\<close>

function retry_loop ::
  "(nat \<Rightarrow> int) \<Rightarrow> ('s \<Rightarrow> (exn + 'a) \<times> 's) \<Rightarrow> int \<Rightarrow> int \<Rightarrow> int \<Rightarrow> exn option \<Rightarrow>
     's \<times> effect list \<Rightarrow> (exn + 'a) \<times> 's \<times> effect list" where
  "retry_loop clock fn attempts backoff i last_exc (s, tr) =
     (if i < attempts then
        (case fn s of
           (Inr v, s') \<Rightarrow> (Inr v, s', tr @ [Invoke])
         | (Inl e, s') \<Rightarrow>
             (let tr' = tr @ [Invoke, Log (Attempt_failed (i + 1) e)] in
              if i < attempts - 1 then
                (case time_sleep (clock (nat i)) (backoff * (i + 1)) tr' of
                   Inl err \<Rightarrow> (Inl err, s', tr')
                 | Inr tr'' \<Rightarrow> retry_loop clock fn attempts backoff (i + 1) (Some e) (s', tr''))
              else retry_loop clock fn attempts backoff (i + 1) (Some e) (s', tr')))
      else
        (case last_exc of
           None \<Rightarrow> (Inl (TypeError ''exceptions must derive from BaseException''), s, tr)
         | Some e \<Rightarrow> (Inl e, s, tr)))"
  by pat_completeness auto
termination
  by (relation "measure (\<lambda>(clock, fn, attempts, backoff, i, last_exc, st). nat (attempts - i))")
    auto

declare retry_loop.simps [simp del]

text \<open>\<open>retry_fn\<close> returns the outcome, the closure's final state and the trace of what it
  invoked, logged and slept.\<close>

definition retry_fn ::
  "(nat \<Rightarrow> int) \<Rightarrow> ('s \<Rightarrow> (exn + 'a) \<times> 's) \<Rightarrow> int \<Rightarrow> int \<Rightarrow> 's \<Rightarrow>
     (exn + 'a) \<times> 's \<times> effect list" where
  "retry_fn clock fn attempts backoff s = retry_loop clock fn attempts backoff 0 None (s, [])"

text \<open>Reading a trace: how often the attempt function was invoked, and the sleeps in order.\<close>

definition invocations :: "effect list \<Rightarrow> nat" where
  "invocations tr = length (filter (\<lambda>x. x = Invoke) tr)"

fun sleeps :: "effect list \<Rightarrow> int list" where
  "sleeps [] = []"
| "sleeps (Sleep d # tr) = d # sleeps tr"
| "sleeps (_ # tr) = sleeps tr"

text \<open>The closure's state after \<open>j\<close> invocations, and the outcome of invocation \<open>j + 1\<close>.\<close>

definition state_after :: "('s \<Rightarrow> (exn + 'a) \<times> 's) \<Rightarrow> nat \<Rightarrow> 's \<Rightarrow> 's" where
  "state_after fn j s = ((\<lambda>x. snd (fn x)) ^^ j) s"

definition outcome :: "('s \<Rightarrow> (exn + 'a) \<times> 's) \<Rightarrow> nat \<Rightarrow> 's \<Rightarrow> exn + 'a" where
  "outcome fn j s = fst (fn (state_after fn j s))"

text \<open>What attempt \<open>i + 1\<close> leaves in the trace when it fails and is not the last: the
  invocation, the warning and the sleep of \<open>backoff * (i + 1)\<close>. \<open>failed_rounds\<close> is the
  trace of the first \<open>m\<close> attempts when all of them do.\<close>

definition failed_round :: "int \<Rightarrow> nat \<Rightarrow> exn \<Rightarrow> effect list" where
  "failed_round backoff i e =
     [Invoke, Log (Attempt_failed (int i + 1) e), Sleep (backoff * (int i + 1))]"

definition failed_rounds ::
  "int \<Rightarrow> ('s \<Rightarrow> (exn + 'a) \<times> 's) \<Rightarrow> nat \<Rightarrow> 's \<Rightarrow> effect list" where
  "failed_rounds backoff fn m s =
     concat (map (\<lambda>j. failed_round backoff j (projl (outcome fn j s))) [0..<m])"

subsection \<open>Decoding the object key: \<open>urllib.parse.unquote_plus\<close>\<close>

text \<open>
  \<open>unquote_plus(s)\<close> is \<open>unquote(s.replace('+', ' '))\<close>. \<open>unquote\<close> returns a string without
  \<open>%\<close> as it is; otherwise it cuts the string into maximal runs of ASCII and of non-ASCII
  characters, keeps the non-ASCII runs, and replaces each ASCII run by
  \<open>unquote_to_bytes(run).decode('utf-8', 'replace')\<close>. \<open>unquote_to_bytes\<close> turns every \<open>%\<close>
  followed by two hexadecimal digits into the byte they denote and leaves any other \<open>%\<close>
  in place. Strings are held as UTF-8 bytes, so decoding with \<open>'replace'\<close> copies the
  well-formed sequences and writes U+FFFD (bytes EF BF BD) for each maximal ill-formed
  one.
\<close>

definition is_hexdig :: "char \<Rightarrow> bool" where
  "is_hexdig c = (c \<in> set ''0123456789ABCDEFabcdef'')"

definition hexval :: "char \<Rightarrow> nat" where
  "hexval c =
     (let n = of_char c in
      if 48 \<le> n \<and> n \<le> 57 then n - 48
      else if 65 \<le> n \<and> n \<le> 70 then n - 55
      else n - 87)"

fun unquote_to_bytes :: "string \<Rightarrow> string" where
  "unquote_to_bytes (c # h1 # h2 # rest) =
     (if c = CHR ''%'' \<and> is_hexdig h1 \<and> is_hexdig h2
      then char_of (16 * hexval h1 + hexval h2) # unquote_to_bytes rest
      else c # unquote_to_bytes (h1 # h2 # rest))"
| "unquote_to_bytes (c # cs) = c # unquote_to_bytes cs"
| "unquote_to_bytes [] = []"

text \<open>How many continuation bytes a lead byte asks for; \<open>None\<close> for a byte that cannot
  start a sequence. The second byte of a sequence has a narrower range after the lead
  bytes E0, ED, F0 and F4.\<close>

definition continuation_need :: "nat \<Rightarrow> nat option" where
  "continuation_need b =
     (if b < 0x80 then Some 0
      else if 0xC2 \<le> b \<and> b \<le> 0xDF then Some 1
      else if 0xE0 \<le> b \<and> b \<le> 0xEF then Some 2
      else if 0xF0 \<le> b \<and> b \<le> 0xF4 then Some 3
      else None)"

definition second_lo :: "nat \<Rightarrow> nat" where
  "second_lo b = (if b = 0xE0 then 0xA0 else if b = 0xF0 then 0x90 else 0x80)"

definition second_hi :: "nat \<Rightarrow> nat" where
  "second_hi b = (if b = 0xED then 0x9F else if b = 0xF4 then 0x8F else 0xBF)"

fun matched :: "nat \<Rightarrow> nat \<Rightarrow> nat \<Rightarrow> nat list \<Rightarrow> nat" where
  "matched 0 lo hi bs = 0"
| "matched (Suc k) lo hi [] = 0"
| "matched (Suc k) lo hi (b # bs) =
     (if lo \<le> b \<and> b \<le> hi then Suc (matched k 0x80 0xBF bs) else 0)"

function utf8_replace :: "nat list \<Rightarrow> nat list" where
  "utf8_replace [] = []"
| "utf8_replace (b # bs) =
     (case continuation_need b of
        None \<Rightarrow> [0xEF, 0xBF, 0xBD] @ utf8_replace bs
      | Some k \<Rightarrow>
          (let m = matched k (second_lo b) (second_hi b) bs in
           (if m = k then b # take m bs else [0xEF, 0xBF, 0xBD]) @ utf8_replace (drop m bs)))"
  by pat_completeness auto
termination
  by (relation "measure length") auto

definition decode_utf8_replace :: "string \<Rightarrow> string" where
  "decode_utf8_replace s = map char_of (utf8_replace (map of_char s))"

definition is_ascii :: "char \<Rightarrow> bool" where
  "is_ascii c = ((of_char c :: nat) < 128)"

function unquote_runs :: "string \<Rightarrow> string" where
  "unquote_runs [] = []"
| "unquote_runs (c # cs) =
     (if is_ascii c
      then decode_utf8_replace (unquote_to_bytes (takeWhile is_ascii (c # cs))) @
           unquote_runs (dropWhile is_ascii (c # cs))
      else takeWhile (\<lambda>x. \<not> is_ascii x) (c # cs) @
           unquote_runs (dropWhile (\<lambda>x. \<not> is_ascii x) (c # cs)))"
  by pat_completeness auto
termination
  by (relation "measure length") (auto simp: length_dropWhile_le less_Suc_eq_le)

definition unquote :: "string \<Rightarrow> string" where
  "unquote s = (if CHR ''%'' \<in> set s then unquote_runs s else s)"

definition unquote_plus :: "string \<Rightarrow> string" where
  "unquote_plus s = unquote (map (\<lambda>c. if c = CHR ''+'' then CHR '' '' else c) s)"








subsection \<open>Normalizing the event\<close>

text \<open>Python's subscription \<open>v[k]\<close> with a string key, and \<open>v[0]\<close>. Only a dict can be
  subscripted with a string; \<open>v[0]\<close> reads the first element of a list or the first
  character of a string, and on a dict looks the key \<open>0\<close> up, which no JSON object has.\<close>

fun subscript :: "json \<Rightarrow> string \<Rightarrow> exn + json" where
  "subscript (JObj kvs) k =
     (case map_of kvs k of None \<Rightarrow> Inl (KeyError (JStr k)) | Some v \<Rightarrow> Inr v)"
| "subscript (JArr xs) k = Inl (TypeError ''list indices must be integers or slices, not str'')"
| "subscript (JStr s) k = Inl (TypeError ''string indices must be integers'')"
| "subscript v k = Inl (TypeError ''object is not subscriptable'')"

fun subscript0 :: "json \<Rightarrow> exn + json" where
  "subscript0 (JArr []) = Inl IndexError"
| "subscript0 (JArr (x # xs)) = Inr x"
| "subscript0 (JStr []) = Inl IndexError"
| "subscript0 (JStr (c # cs)) = Inr (JStr [c])"
| "subscript0 (JObj kvs) = Inl (KeyError (JNum 0))"
| "subscript0 v = Inl (TypeError ''object is not subscriptable'')"

text \<open>\<open>unquote_plus\<close> on a decoded JSON value: anything but a string has no
  \<open>replace\<close> method.\<close>

fun unquote_plus_value :: "json \<Rightarrow> exn + string" where
  "unquote_plus_value (JStr s) = Inr (unquote_plus s)"
| "unquote_plus_value v = Inl AttributeError"

text \<open>Sequencing of statements that may raise.\<close>

definition and_then :: "exn + 'a \<Rightarrow> ('a \<Rightarrow> exn + 'b) \<Rightarrow> exn + 'b" where
  "and_then m f = (case m of Inl e \<Rightarrow> Inl e | Inr v \<Rightarrow> f v)"

text \<open>The body of the handler's first \<open>try\<close> block, in the source's order of evaluation:
  \<open>event["Records"][0]\<close>, then the bucket name, then the raw key and its decoding. The
  bucket name is taken as it is found, whatever its type.\<close>

definition normalize_event :: "json \<Rightarrow> exn + json \<times> string" where
  "normalize_event event =
     and_then (subscript event ''Records'') (\<lambda>records.
     and_then (subscript0 records) (\<lambda>record.
     and_then (subscript record ''s3'') (\<lambda>s3a.
     and_then (subscript s3a ''bucket'') (\<lambda>bucket.
     and_then (subscript bucket ''name'') (\<lambda>s3_bucket.
     and_then (subscript record ''s3'') (\<lambda>s3b.
     and_then (subscript s3b ''object'') (\<lambda>obj.
     and_then (subscript obj ''key'') (\<lambda>raw_key.
     and_then (unquote_plus_value raw_key) (\<lambda>s3_key.
       Inr (s3_bucket, s3_key))))))))))"

text \<open>The shape a storage notification is expected to have, read off the document
  itself: the first record's \<open>s3.bucket.name\<close> and \<open>s3.object.key\<close>.\<close>

fun get_member :: "json \<Rightarrow> string \<Rightarrow> json option" where
  "get_member (JObj kvs) k = map_of kvs k"
| "get_member v k = None"

definition first_record :: "json \<Rightarrow> json option" where
  "first_record event =
     (case get_member event ''Records'' of Some (JArr (r # rs)) \<Rightarrow> Some r | _ \<Rightarrow> None)"

definition path2 :: "json \<Rightarrow> string \<Rightarrow> string \<Rightarrow> json option" where
  "path2 v a b = (case get_member v a of None \<Rightarrow> None | Some x \<Rightarrow> get_member x b)"

definition container_name :: "json \<Rightarrow> json option" where
  "container_name event =
     (case first_record event of None \<Rightarrow> None
      | Some r \<Rightarrow> (case get_member r ''s3'' of None \<Rightarrow> None | Some s \<Rightarrow> path2 s ''bucket'' ''name''))"

definition object_key :: "json \<Rightarrow> json option" where
  "object_key event =
     (case first_record event of None \<Rightarrow> None
      | Some r \<Rightarrow> (case get_member r ''s3'' of None \<Rightarrow> None | Some s \<Rightarrow> path2 s ''object'' ''key''))"

definition is_string :: "json option \<Rightarrow> bool" where
  "is_string v = (case v of Some (JStr s) \<Rightarrow> True | _ \<Rightarrow> False)"

subsection \<open>Configuration and the destination client\<close>

text \<open>The module-level globals read from the environment. An environment variable
  that is unset is \<open>None\<close>; Python's truth test treats the empty string like \<open>None\<close>.\<close>

record env =
  GCS_BUCKET :: "string option"
  GCP_SA_KEY :: "string option"
  GCP_SA_KEY_B64 :: "string option"
  RETRY_ATTEMPTS :: int
  RETRY_BACKOFF :: int

fun truthy :: "string option \<Rightarrow> string option" where
  "truthy None = None"
| "truthy (Some s) = (if s = [] then None else Some s)"

type_synonym byte = "8 word"

record stream =
  pending :: "byte list"
  closed :: bool

record s3_object =
  Body :: "byte list"
  ContentLength :: "int option"

text \<open>
  The world outside the handler: the source objects by bucket and key, the destination
  objects by bucket and blob name, every source stream opened so far (a stream's handle
  is its index), the local files, the readings of the monotonic clock at the sleeps of
  an invocation, and the faults to come. Each call that reaches the
  network or the file system takes the head of \<open>faults\<close>: \<open>Some e\<close> makes the call raise
  \<open>e\<close>, \<open>None\<close> or an empty list lets it proceed.
\<close>

record world =
  s3_objects :: "string \<times> string \<rightharpoonup> s3_object"
  gcs_objects :: "string \<times> string \<rightharpoonup> byte list"
  streams :: "stream list"
  files :: "string \<rightharpoonup> string"
  monotonic :: "nat \<Rightarrow> int"
  faults :: "exn option list"

definition next_fault :: "world \<Rightarrow> exn option \<times> world" where
  "next_fault w = (case faults w of [] \<Rightarrow> (None, w) | f # fs \<Rightarrow> (f, w\<lparr>faults := fs\<rparr>))"

datatype gcs_client = Client string

definition tmp_path :: string where
  "tmp_path = ''/tmp/gcp_sa_key.json''"

definition write_file :: "string \<Rightarrow> string \<Rightarrow> world \<Rightarrow> (exn + unit) \<times> world" where
  "write_file path content w =
     (case next_fault w of
        (Some e, w1) \<Rightarrow> (Inl e, w1)
      | (None, w1) \<Rightarrow> (Inr (), w1\<lparr>files := (files w1)(path \<mapsto> content)\<rparr>))"

text \<open>\<open>storage.Client.from_service_account_json(path)\<close>: the client built from the file's
  content; a fault stands for content the library rejects.\<close>

definition from_service_account_json :: "string \<Rightarrow> world \<Rightarrow> (exn + gcs_client) \<times> world" where
  "from_service_account_json path w =
     (case next_fault w of
        (Some e, w1) \<Rightarrow> (Inl e, w1)
      | (None, w1) \<Rightarrow>
          (case files w1 path of
             None \<Rightarrow> (Inl (OSError ''No such file or directory''), w1)
           | Some content \<Rightarrow> (Inr (Client content), w1)))"

text \<open>
  \<open>init_gcs_client\<close>. Its first argument stands for
  \<open>base64.b64decode(x).decode("utf-8")\<close>, \<open>None\<close> where that raises (\<open>binascii.Error\<close> and
  \<open>UnicodeDecodeError\<close> are both \<open>ValueError\<close>s).
\<close>

definition init_gcs_client ::
  "(string \<Rightarrow> string option) \<Rightarrow> env \<Rightarrow> world \<Rightarrow> (exn + gcs_client) \<times> world" where
  "init_gcs_client b64decode_utf8 env w =
     (case
        (case truthy (GCP_SA_KEY env) of
           Some raw \<Rightarrow> Inr raw
         | None \<Rightarrow>
             (case truthy (GCP_SA_KEY_B64 env) of
                Some enc \<Rightarrow>
                  (case b64decode_utf8 enc of
                     None \<Rightarrow> Inl (ValueError ''cannot decode GCP_SA_KEY_B64'')
                   | Some dec \<Rightarrow> Inr dec)
              | None \<Rightarrow>
                  Inl (RuntimeError
                    ''GCP_SA_KEY or GCP_SA_KEY_B64 environment variable is required'')))
      of
        Inl e \<Rightarrow> (Inl e, w)
      | Inr sa_json \<Rightarrow>
          (case write_file tmp_path sa_json w of
             (Inl e, w1) \<Rightarrow> (Inl e, w1)
           | (Inr u, w1) \<Rightarrow> from_service_account_json tmp_path w1))"

subsection \<open>The source: \<open>s3_get_object_stream\<close> and the stream it returns\<close>

text \<open>\<open>s3.get_object\<close> validates its parameters before any request: the bucket must be a
  string and the key a non-empty string. It opens a new stream on the object's body and
  reports the \<open>ContentLength\<close> of the response, if there is one.\<close>

definition s3_get_object_stream ::
  "json \<Rightarrow> string \<Rightarrow> world \<Rightarrow> (exn + nat \<times> int option) \<times> world" where
  "s3_get_object_stream bucket key w =
     (case bucket of
        JStr b \<Rightarrow>
          (if key = [] then (Inl ParamValidationError, w)
           else
             (case next_fault w of
                (Some e, w1) \<Rightarrow> (Inl e, w1)
              | (None, w1) \<Rightarrow>
                  (case s3_objects w1 (b, key) of
                     None \<Rightarrow> (Inl (ClientError ''NoSuchKey''), w1)
                   | Some obj \<Rightarrow>
                       (Inr (length (streams w1), ContentLength obj),
                        w1\<lparr>streams := streams w1 @ [\<lparr>pending = Body obj, closed = False\<rparr>]\<rparr>))))
      | _ \<Rightarrow> (Inl ParamValidationError, w))"

text \<open>\<open>stream.read(amt)\<close> hands out the next \<open>amt\<close> bytes, fewer at the end of the body and
  none after it.\<close>

definition stream_read :: "nat \<Rightarrow> nat \<Rightarrow> world \<Rightarrow> (exn + byte list) \<times> world" where
  "stream_read sid amt w =
     (case next_fault w of
        (Some e, w1) \<Rightarrow> (Inl e, w1)
      | (None, w1) \<Rightarrow>
          (if sid < length (streams w1) \<and> \<not> closed (streams w1 ! sid)
           then (Inr (take amt (pending (streams w1 ! sid))),
                 w1\<lparr>streams := (streams w1)
                    [sid := (streams w1 ! sid)\<lparr>pending := drop amt (pending (streams w1 ! sid))\<rparr>]\<rparr>)
           else (Inl (ValueError ''I/O operation on closed file''), w1)))"

definition stream_close :: "nat \<Rightarrow> world \<Rightarrow> (exn + unit) \<times> world" where
  "stream_close sid w =
     (case next_fault w of
        (Some e, w1) \<Rightarrow> (Inl e, w1)
      | (None, w1) \<Rightarrow>
          (Inr (), if sid < length (streams w1)
                   then w1\<lparr>streams := (streams w1)[sid := (streams w1 ! sid)\<lparr>closed := True\<rparr>]\<rparr>
                   else w1))"

text \<open>\<open>try: stream.close()\<close> with a bare \<open>except: pass\<close>.\<close>

definition close_ignoring_errors :: "nat \<Rightarrow> world \<Rightarrow> world" where
  "close_ignoring_errors sid w = snd (stream_close sid w)"

subsection \<open>The destination: bucket, blob and blob writer\<close>

text \<open>
  The destination client library is not part of the repository; what the handler uses
  of it is modelled as the library documents it.
  \<^item> \<open>client.bucket(name)\<close> and \<open>bucket.blob(name)\<close> build local handles: \<open>Bucket.blob\<close>
    "will not make an HTTP request; it simply instantiates a blob object owned by this
    bucket". A new blob handle has no properties, and \<open>Blob.size\<close> is "the size of the
    blob or \<open>None\<close> if the blob's resource has not been loaded from the server", which
    \<open>reload()\<close> or \<open>bucket.get_blob\<close> would do. The source calls neither.
  \<^item> \<open>blob.exists()\<close> asks the server whether the object is there, requesting the
    \<open>name\<close> field only, and leaves the handle's properties as they are.
  \<^item> A request needs the blob's path, which raises \<open>ValueError\<close> without a blob name or
    a bucket name.
  \<^item> \<open>blob.open("wb")\<close> returns a writer that sends no request by itself; \<open>write\<close>
    collects the data and \<open>close\<close> commits the object. The \<open>with\<close> statement closes the
    writer on every exit from its body.
\<close>

record gcs_bucket =
  bucket_client :: gcs_client
  bucket_name :: "string option"

record blob =
  blob_bucket :: gcs_bucket
  blob_name :: string
  blob_size :: "int option"

definition client_bucket :: "gcs_client \<Rightarrow> string option \<Rightarrow> gcs_bucket" where
  "client_bucket client name = \<lparr>bucket_client = client, bucket_name = name\<rparr>"

definition bucket_blob :: "gcs_bucket \<Rightarrow> string \<Rightarrow> blob" where
  "bucket_blob bucket_obj name = \<lparr>blob_bucket = bucket_obj, blob_name = name, blob_size = None\<rparr>"

definition blob_path :: "blob \<Rightarrow> exn + string \<times> string" where
  "blob_path bl =
     (if blob_name bl = [] then Inl (ValueError ''Cannot get path without a blob name'')
      else
        (case truthy (bucket_name (blob_bucket bl)) of
           None \<Rightarrow> Inl (ValueError ''Cannot determine path without bucket name'')
         | Some b \<Rightarrow> Inr (b, blob_name bl)))"

definition blob_exists :: "blob \<Rightarrow> world \<Rightarrow> (exn + bool) \<times> world" where
  "blob_exists bl w =
     (case blob_path bl of
        Inl e \<Rightarrow> (Inl e, w)
      | Inr p \<Rightarrow>
          (case next_fault w of
             (Some e, w1) \<Rightarrow> (Inl e, w1)
           | (None, w1) \<Rightarrow> (Inr (gcs_objects w1 p \<noteq> None), w1)))"

text \<open>\<open>f.write(chunk)\<close> appends to what the writer holds; \<open>f.close()\<close> commits it as the
  object's content.\<close>

definition writer_write :: "byte list \<Rightarrow> byte list \<Rightarrow> world \<Rightarrow> (exn + byte list) \<times> world" where
  "writer_write buf chunk w =
     (case next_fault w of
        (Some e, w1) \<Rightarrow> (Inl e, w1)
      | (None, w1) \<Rightarrow> (Inr (buf @ chunk), w1))"

definition writer_close :: "blob \<Rightarrow> byte list \<Rightarrow> world \<Rightarrow> (exn + unit) \<times> world" where
  "writer_close bl buf w =
     (case blob_path bl of
        Inl e \<Rightarrow> (Inl e, w)
      | Inr p \<Rightarrow>
          (case next_fault w of
             (Some e, w1) \<Rightarrow> (Inl e, w1)
           | (None, w1) \<Rightarrow> (Inr (), w1\<lparr>gcs_objects := (gcs_objects w1)(p \<mapsto> buf)\<rparr>)))"

subsection \<open>\<open>upload_stream_to_gcs\<close>\<close>

definition chunk_size :: nat where
  "chunk_size = 8 * 1024 * 1024"

text \<open>The \<open>while True\<close> loop: read a chunk, stop on an empty one, write it otherwise.
  The result is the exception that left the loop, if any, and what the writer holds.\<close>

function copy_chunks :: "nat \<Rightarrow> byte list \<Rightarrow> world \<Rightarrow> (exn option \<times> byte list) \<times> world" where
  "copy_chunks s3_stream buf w =
     (case stream_read s3_stream chunk_size w of
        (Inl e, w1) \<Rightarrow> ((Some e, buf), w1)
      | (Inr chunk, w1) \<Rightarrow>
          (if chunk = [] then ((None, buf), w1)
           else
             (case writer_write buf chunk w1 of
                (Inl e, w2) \<Rightarrow> ((Some e, buf), w2)
              | (Inr buf', w2) \<Rightarrow> copy_chunks s3_stream buf' w2)))"
  by pat_completeness auto
termination
  by (relation "measure (\<lambda>(sid, buf, w). length (pending (streams w ! sid)))")
    (auto simp: stream_read_def writer_write_def next_fault_def chunk_size_def
      split: list.splits option.splits if_splits)

declare copy_chunks.simps [simp del]

text \<open>The \<open>with\<close> block around the loop: the writer is closed when the loop ends and
  when it raises; an exception of \<open>close\<close> replaces the one that was on its way.\<close>

definition upload_stream_to_gcs ::
  "gcs_bucket \<Rightarrow> string \<Rightarrow> nat \<Rightarrow> world \<Rightarrow> (exn + unit) \<times> world" where
  "upload_stream_to_gcs bucket_obj dest_blob_name s3_stream w =
     (let bl = bucket_blob bucket_obj dest_blob_name in
      case copy_chunks s3_stream [] w of
        ((None, buf), w1) \<Rightarrow> writer_close bl buf w1
      | ((Some e, buf), w1) \<Rightarrow>
          (case writer_close bl buf w1 of
             (Inl e', w2) \<Rightarrow> (Inl e', w2)
           | (Inr u, w2) \<Rightarrow> (Inl e, w2)))"

subsection \<open>\<open>file_exists_and_same_size\<close>\<close>

text \<open>\<open>blob.exists()\<close> stands before the \<open>try\<close>, so its exception leaves the function;
  the comparison inside the \<open>try\<close> reads the handle's \<open>size\<close> property and cannot raise.\<close>

definition file_exists_and_same_size ::
  "gcs_bucket \<Rightarrow> string \<Rightarrow> int option \<Rightarrow> world \<Rightarrow> (exn + bool) \<times> world" where
  "file_exists_and_same_size bucket_obj name s3_size w =
     (let bl = bucket_blob bucket_obj name in
      case blob_exists bl w of
        (Inl e, w1) \<Rightarrow> (Inl e, w1)
      | (Inr False, w1) \<Rightarrow> (Inr False, w1)
      | (Inr True, w1) \<Rightarrow> (Inr (s3_size \<noteq> None \<and> blob_size bl = s3_size), w1))"

subsection \<open>\<open>lambda_handler\<close>\<close>

text \<open>The closure \<open>upload\<close>: a fresh source stream for every attempt, closed only when
  the copy has returned.\<close>

definition upload :: "gcs_bucket \<Rightarrow> json \<Rightarrow> string \<Rightarrow> world \<Rightarrow> (exn + bool) \<times> world" where
  "upload gcs_bucket_obj s3_bucket s3_key w =
     (case s3_get_object_stream s3_bucket s3_key w of
        (Inl e, w1) \<Rightarrow> (Inl e, w1)
      | (Inr (stream, sz), w1) \<Rightarrow>
          (case upload_stream_to_gcs gcs_bucket_obj s3_key stream w1 of
             (Inl e, w2) \<Rightarrow> (Inl e, w2)
           | (Inr u, w2) \<Rightarrow> (Inr True, close_ignoring_errors stream w2)))"

record response =
  statusCode :: int
  body :: string

definition skipped :: response where
  "skipped = \<lparr>statusCode = 200, body = ''Skipped - file already exists''\<rparr>"

definition replicated :: response where
  "replicated = \<lparr>statusCode = 200, body = ''Replication successful''\<rparr>"

text \<open>
  The handler returns its response or the exception it raises, the world it leaves and
  the trace of the invocation. An exception of the first \<open>try\<close> block is logged and
  raised again; one of the idempotency check is logged and dropped.
\<close>

definition lambda_handler ::
  "(string \<Rightarrow> string option) \<Rightarrow> env \<Rightarrow> json \<Rightarrow> world \<Rightarrow> (exn + response) \<times> world \<times> effect list" where
  "lambda_handler b64decode_utf8 env event w =
     (let tr0 = [Log (Received_event event)] in
      case normalize_event event of
        Inl e \<Rightarrow> (Inl e, w, tr0 @ [Log (Invalid_event_format e)])
      | Inr (s3_bucket, s3_key) \<Rightarrow>
          (case init_gcs_client b64decode_utf8 env w of
             (Inl e, w1) \<Rightarrow> (Inl e, w1, tr0)
           | (Inr gcs_client, w1) \<Rightarrow>
               (let gcs_bucket_obj = client_bucket gcs_client (GCS_BUCKET env) in
                case s3_get_object_stream s3_bucket s3_key w1 of
                  (Inl e, w2) \<Rightarrow> (Inl e, w2, tr0)
                | (Inr (s3_stream, s3_size), w2) \<Rightarrow>
                    (case file_exists_and_same_size gcs_bucket_obj s3_key s3_size w2 of
                       (Inr True, w3) \<Rightarrow>
                         (Inr skipped, close_ignoring_errors s3_stream w3,
                          tr0 @ [Log (Skipping s3_key)])
                     | (check, w3) \<Rightarrow>
                         (let tr1 = (case check of
                                       Inl e \<Rightarrow> tr0 @ [Log (Idempotency_check_failed e)]
                                     | Inr b \<Rightarrow> tr0) in
                          case retry_fn (monotonic w3) (upload gcs_bucket_obj s3_bucket s3_key)
                                 (RETRY_ATTEMPTS env) (RETRY_BACKOFF env) w3 of
                            (Inl e, w4, tr2) \<Rightarrow> (Inl e, w4, tr1 @ tr2)
                          | (Inr ok, w4, tr2) \<Rightarrow>
                              (Inr replicated, w4,
                               tr1 @ tr2 @ [Log (Successfully_replicated s3_bucket s3_key)]))))))"

text \<open>The streams an invocation leaves open.\<close>

definition open_streams :: "world \<Rightarrow> nat list" where
  "open_streams w = filter (\<lambda>i. \<not> closed (streams w ! i)) [0..<length (streams w)]"

subsection \<open>A scenario to run the handler on\<close>

text \<open>A storage notification with one record, a configuration with the raw secret, and
  a world in which the source bucket \<open>photos\<close> holds one three-byte object and the
  destination bucket \<open>backup\<close> is empty.\<close>

definition notification :: "json \<Rightarrow> json \<Rightarrow> json" where
  "notification name key =
     JObj [(''Records'',
       JArr [JObj [(''s3'',
         JObj [(''bucket'', JObj [(''name'', name)]),
               (''object'', JObj [(''key'', key)])])]])]"

definition example_env :: env where
  "example_env =
     \<lparr>GCS_BUCKET = Some ''backup'', GCP_SA_KEY = Some ''{}'', GCP_SA_KEY_B64 = None,
      RETRY_ATTEMPTS = 3, RETRY_BACKOFF = 2\<rparr>"

definition example_world :: world where
  "example_world =
     \<lparr>s3_objects = [(''photos'', ''my file+name.txt'') \<mapsto> \<lparr>Body = [1, 2, 3], ContentLength = Some 3\<rparr>],
      gcs_objects = Map.empty,
      streams = [],
      files = Map.empty,
      monotonic = (\<lambda>j. 3600),
      faults = []\<rparr>"


definition example_bucket :: gcs_bucket where
  "example_bucket = client_bucket (Client ''{}'') (Some ''backup'')"


section \<open>Properties of \<open>retry_fn\<close>\<close>

lemma state_after_Suc: "state_after fn (Suc j) s = snd (fn (state_after fn j s))"
  by (simp add: state_after_def)

lemma fn_at_state_after:
  "fn (state_after fn j s) = (outcome fn j s, state_after fn (Suc j) s)"
  by (simp add: outcome_def state_after_Suc)

lemma time_sleep_accepted:
  "accepts_sleep now secs \<Longrightarrow> time_sleep now secs tr = Inr (tr @ [Sleep secs])"
  by (simp add: time_sleep_def accepts_sleep_def)

lemma time_sleep_Inr_iff:
  "(\<exists>tr'. time_sleep now secs tr = Inr tr') \<longleftrightarrow> accepts_sleep now secs"
  by (auto simp: time_sleep_def accepts_sleep_def max_sleep_def)

lemma retry_loop_fail_step:
  assumes "fn s = (Inl e, s')" "i < attempts - 1"
    and "accepts_sleep (clock (nat i)) (backoff * (i + 1))"
  shows "retry_loop clock fn attempts backoff i last_exc (s, tr) =
         retry_loop clock fn attempts backoff (i + 1) (Some e)
           (s', tr @ [Invoke, Log (Attempt_failed (i + 1) e), Sleep (backoff * (i + 1))])"
  using assms
  by (subst retry_loop.simps) (simp add: time_sleep_accepted Let_def)

text \<open>A sleep that raises ends \<open>retry_fn\<close> with the exception of \<open>time.sleep\<close>.\<close>

lemma retry_loop_sleep_raises:
  assumes "fn s = (Inl e, s')" "i < attempts - 1"
    and "time_sleep (clock (nat i)) (backoff * (i + 1))
           (tr @ [Invoke, Log (Attempt_failed (i + 1) e)]) = Inl err"
  shows "retry_loop clock fn attempts backoff i last_exc (s, tr) =
         (Inl err, s', tr @ [Invoke, Log (Attempt_failed (i + 1) e)])"
  using assms
  by (subst retry_loop.simps) (simp add: Let_def)

lemma retry_loop_last_fail:
  assumes "fn s = (Inl e, s')" "i = attempts - 1"
  shows "retry_loop clock fn attempts backoff i last_exc (s, tr) =
         (Inl e, s', tr @ [Invoke, Log (Attempt_failed attempts e)])"
  using assms
  by (subst retry_loop.simps, subst retry_loop.simps) (simp add: Let_def)

lemma retry_loop_success:
  assumes "fn s = (Inr v, s')" "i < attempts"
  shows "retry_loop clock fn attempts backoff i last_exc (s, tr) = (Inr v, s', tr @ [Invoke])"
  using assms by (subst retry_loop.simps) simp

lemma failed_rounds_Suc:
  "failed_rounds backoff fn (Suc m) s =
     failed_rounds backoff fn m s @ failed_round backoff m (projl (outcome fn m s))"
  by (simp add: failed_rounds_def)

lemma failed_rounds_0: "failed_rounds backoff fn 0 s = []"
  by (simp add: failed_rounds_def)

lemma retry_loop_fail_prefix:
  assumes "\<forall>j<m. accepts_sleep (clock j) (backoff * (int j + 1))"
    and "int m < attempts" and "\<forall>j<m. isl (outcome fn j s)"
  shows "retry_loop clock fn attempts backoff 0 None (s, tr) =
         retry_loop clock fn attempts backoff (int m)
           (if m = 0 then None else Some (projl (outcome fn (m - 1) s)))
           (state_after fn m s, tr @ failed_rounds backoff fn m s)"
  using assms
proof (induction m)
  case 0
  then show ?case by (simp add: state_after_def failed_rounds_0)
next
  case (Suc m)
  from Suc.prems have acc: "accepts_sleep (clock (nat (int m))) (backoff * (int m + 1))"
    by simp
  from Suc.prems have "isl (outcome fn m s)" by simp
  then obtain e where e: "outcome fn m s = Inl e" by (cases "outcome fn m s") auto
  then have fn: "fn (state_after fn m s) = (Inl e, state_after fn (Suc m) s)"
    by (simp add: fn_at_state_after)
  have lt: "int m < attempts - 1" using Suc.prems by simp
  have "retry_loop clock fn attempts backoff 0 None (s, tr) =
         retry_loop clock fn attempts backoff (int m)
           (if m = 0 then None else Some (projl (outcome fn (m - 1) s)))
           (state_after fn m s, tr @ failed_rounds backoff fn m s)"
    using Suc by simp
  also have "\<dots> = retry_loop clock fn attempts backoff (int m + 1) (Some e)
        (state_after fn (Suc m) s,
         (tr @ failed_rounds backoff fn m s) @
           [Invoke, Log (Attempt_failed (int m + 1) e), Sleep (backoff * (int m + 1))])"
    using fn lt acc by (rule retry_loop_fail_step)
  finally show ?case
    by (simp add: e failed_rounds_Suc failed_round_def add.commute)
qed

lemma invocations_append: "invocations (xs @ ys) = invocations xs + invocations ys"
  by (simp add: invocations_def)

lemma sleeps_append: "sleeps (xs @ ys) = sleeps xs @ sleeps ys"
  by (induction xs rule: sleeps.induct) simp_all

lemma invocations_failed_rounds: "invocations (failed_rounds backoff fn m s) = m"
  by (induction m)
    (simp_all add: failed_rounds_0 failed_rounds_Suc invocations_def failed_round_def)

lemma sleeps_failed_rounds:
  "sleeps (failed_rounds backoff fn m s) = map (\<lambda>i. backoff * int i) [1..<Suc m]"
  by (induction m) (simp_all add: failed_rounds_0 failed_rounds_Suc sleeps_append failed_round_def
      add.commute)

text \<open>
  Claim C2, as amended. Let \<open>attempts \<ge> 1\<close> and let the backoff unit \<open>b\<close> be such that
  \<open>time.sleep\<close> accepts every sleep between the attempts: each \<open>b * i\<close> with \<open>i < attempts\<close>
  is not negative and, added to the monotonic clock's reading, stays below \<open>max_sleep\<close>
  seconds. When the attempt function raises on every one of its invocations, \<open>retry_fn\<close> invokes it exactly \<open>attempts\<close> times, sleeps
  \<open>b * i\<close> after attempt \<open>i\<close> for each \<open>i < attempts\<close> and at no other moment, and raises
  the exception of the last attempt. The trace is given in full, so the place of every
  sleep between the invocations is fixed.
\<close>

theorem retry_fn_exhausted:
  assumes "1 \<le> attempts"
    and "\<forall>j < nat attempts - 1. accepts_sleep (clock j) (backoff * (int j + 1))"
    and "\<forall>j < nat attempts. isl (outcome fn j s)"
  shows "(case retry_fn clock fn attempts backoff s of
            (r, s', T) \<Rightarrow>
              r = Inl (projl (outcome fn (nat attempts - 1) s)) \<and>
              s' = state_after fn (nat attempts) s \<and>
              T = failed_rounds backoff fn (nat attempts - 1) s @
                    [Invoke, Log (Attempt_failed attempts (projl (outcome fn (nat attempts - 1) s)))] \<and>
              invocations T = nat attempts \<and>
              sleeps T = map (\<lambda>i. backoff * int i) [1..<nat attempts])"
proof -
  define m where "m = nat attempts - 1"
  have m: "int m = attempts - 1" "Suc m = nat attempts" using assms(1) by (simp_all add: m_def)
  have acc: "\<forall>j<m. accepts_sleep (clock j) (backoff * (int j + 1))"
    using assms(2) by (simp add: m_def)
  have "isl (outcome fn m s)" using assms(3) m by simp
  then obtain e where e: "outcome fn m s = Inl e" by (cases "outcome fn m s") auto
  have fn: "fn (state_after fn m s) = (Inl e, state_after fn (Suc m) s)"
    by (simp add: fn_at_state_after e)
  have "retry_fn clock fn attempts backoff s =
          retry_loop clock fn attempts backoff (int m)
            (if m = 0 then None else Some (projl (outcome fn (m - 1) s)))
            (state_after fn m s, [] @ failed_rounds backoff fn m s)"
    unfolding retry_fn_def using acc assms(3) m by (intro retry_loop_fail_prefix) simp_all
  also have "\<dots> = (Inl e, state_after fn (Suc m) s,
           ([] @ failed_rounds backoff fn m s) @ [Invoke, Log (Attempt_failed attempts e)])"
    using fn m(1) by (rule retry_loop_last_fail)
  finally have eq: "retry_fn clock fn attempts backoff s =
      (Inl e, state_after fn (nat attempts) s,
       failed_rounds backoff fn m s @ [Invoke, Log (Attempt_failed attempts e)])"
    by (simp add: m)
  have inv: "invocations (failed_rounds backoff fn m s @ [Invoke, Log (Attempt_failed attempts e)])
      = nat attempts"
    by (simp add: invocations_append invocations_failed_rounds m(2) [symmetric])
      (simp add: invocations_def)
  have sl: "sleeps (failed_rounds backoff fn m s @ [Invoke, Log (Attempt_failed attempts e)])
      = map (\<lambda>i. backoff * int i) [1..<nat attempts]"
    by (simp add: sleeps_append sleeps_failed_rounds m(2) [symmetric] del: upt_Suc)
  show ?thesis
    unfolding eq using inv sl e by (simp add: m_def)
qed

text \<open>Three attempts with backoff unit 2, each raising its own exception, an hour after
  the clock started.\<close>

theorem retry_fn_exhausted_witness:
  "(1::int) \<le> 3 \<and> accepts_sleep 3600 2 \<and> accepts_sleep 3600 4 \<and>
   isl (outcome (\<lambda>n::nat. (Inl (KeyError (JNum (int n))) :: exn + bool, Suc n)) 0 0) \<and>
   isl (outcome (\<lambda>n::nat. (Inl (KeyError (JNum (int n))) :: exn + bool, Suc n)) 1 0) \<and>
   isl (outcome (\<lambda>n::nat. (Inl (KeyError (JNum (int n))) :: exn + bool, Suc n)) 2 0) \<and>
   retry_fn (\<lambda>j. 3600) (\<lambda>n::nat. (Inl (KeyError (JNum (int n))) :: exn + bool, Suc n)) 3 2 0 =
     (Inl (KeyError (JNum 2)), 3,
      [Invoke, Log (Attempt_failed 1 (KeyError (JNum 0))), Sleep 2,
       Invoke, Log (Attempt_failed 2 (KeyError (JNum 1))), Sleep 4,
       Invoke, Log (Attempt_failed 3 (KeyError (JNum 2)))])"
proof -
  let ?F = "\<lambda>n::nat. (Inl (KeyError (JNum (int n))) :: exn + bool, Suc n)"
  have h: "\<forall>j < nat 3. isl (outcome ?F j 0)" by (simp add: outcome_def)
  have a: "\<forall>j < nat 3 - 1. accepts_sleep ((\<lambda>j. 3600) j) (2 * (int j + 1))"
    by (auto simp: accepts_sleep_def max_sleep_def)
  have st: "state_after ?F j 0 = j" for j by (induction j) (simp_all add: state_after_def)
  have "accepts_sleep 3600 2" "accepts_sleep 3600 4"
    by (simp_all add: accepts_sleep_def max_sleep_def)
  then show ?thesis
    using retry_fn_exhausted [of 3 "\<lambda>j. 3600" 2 ?F 0, OF _ a h]
    by (simp add: outcome_def st failed_rounds_def failed_round_def eval_nat_numeral
        split: prod.splits)
qed

text \<open>
  The claim as stated holds for every backoff unit. With three attempts that all raise
  and the unit \<open>-1\<close>, the sleep after the first attempt raises \<open>ValueError\<close>: the function
  is invoked once, not three times, and the exception is not the last attempt's. With
  two attempts, a unit of \<open>10^10\<close> seconds makes the sleep raise \<open>OverflowError\<close> and one of
  \<open>9223372036\<close> seconds \<open>OSError\<close>.
\<close>

theorem retry_fn_exhausted_counterexample:
  "isl (outcome (\<lambda>n::nat. (Inl (KeyError (JNum (int n))) :: exn + bool, Suc n)) 0 0) \<and>
   isl (outcome (\<lambda>n::nat. (Inl (KeyError (JNum (int n))) :: exn + bool, Suc n)) 1 0) \<and>
   isl (outcome (\<lambda>n::nat. (Inl (KeyError (JNum (int n))) :: exn + bool, Suc n)) 2 0) \<and>
   retry_fn (\<lambda>j. 3600) (\<lambda>n::nat. (Inl (KeyError (JNum (int n))) :: exn + bool, Suc n)) 3 (- 1) 0 =
     (Inl (ValueError ''sleep length must be non-negative''), 1,
      [Invoke, Log (Attempt_failed 1 (KeyError (JNum 0)))]) \<and>
   retry_fn (\<lambda>j. 3600) (\<lambda>n::nat. (Inl (KeyError (JNum (int n))) :: exn + bool, Suc n))
       2 10000000000 0 =
     (Inl (OverflowError ''timestamp too large to convert to C _PyTime_t''), 1,
      [Invoke, Log (Attempt_failed 1 (KeyError (JNum 0)))]) \<and>
   retry_fn (\<lambda>j. 3600) (\<lambda>n::nat. (Inl (KeyError (JNum (int n))) :: exn + bool, Suc n))
       2 9223372036 0 =
     (Inl (OSError ''Invalid argument''), 1,
      [Invoke, Log (Attempt_failed 1 (KeyError (JNum 0)))])"
proof -
  let ?F = "\<lambda>n::nat. (Inl (KeyError (JNum (int n))) :: exn + bool, Suc n)"
  have "retry_fn (\<lambda>j. 3600) ?F 3 (- 1) 0 =
     (Inl (ValueError ''sleep length must be non-negative''), 1,
      [] @ [Invoke, Log (Attempt_failed (0 + 1) (KeyError (JNum 0)))])"
    unfolding retry_fn_def
    by (rule retry_loop_sleep_raises) (simp_all add: time_sleep_def max_sleep_def)
  moreover have "retry_fn (\<lambda>j. 3600) ?F 2 10000000000 0 =
     (Inl (OverflowError ''timestamp too large to convert to C _PyTime_t''), 1,
      [] @ [Invoke, Log (Attempt_failed (0 + 1) (KeyError (JNum 0)))])"
    unfolding retry_fn_def
    by (rule retry_loop_sleep_raises) (simp_all add: time_sleep_def max_sleep_def)
  moreover have "retry_fn (\<lambda>j. 3600) ?F 2 9223372036 0 =
     (Inl (OSError ''Invalid argument''), 1,
      [] @ [Invoke, Log (Attempt_failed (0 + 1) (KeyError (JNum 0)))])"
    unfolding retry_fn_def
    by (rule retry_loop_sleep_raises) (simp_all add: time_sleep_def max_sleep_def)
  ultimately show ?thesis by (simp add: outcome_def)
qed

text \<open>
  Claim C9, as amended. Let the attempt function raise on its first \<open>k - 1\<close> invocations
  and return \<open>v\<close> on invocation \<open>k \<le> attempts\<close>, and let \<open>time.sleep\<close> accept the sleeps
  after the failed attempts: each \<open>b * i\<close> with \<open>i < k\<close> is not negative and, added to the
  monotonic clock's reading, stays below \<open>max_sleep\<close> seconds. Then \<open>retry_fn\<close> invokes the function exactly
  \<open>k\<close> times, returns \<open>v\<close> unchanged, and the trace ends with the successful invocation:
  no sleep follows it. The sleeps before it are those of the \<open>k - 1\<close> failed attempts.
\<close>

theorem retry_fn_first_success:
  assumes "1 \<le> k" and "int k \<le> attempts"
    and "\<forall>j < k - 1. accepts_sleep (clock j) (backoff * (int j + 1))"
    and "\<forall>j < k - 1. isl (outcome fn j s)"
    and "outcome fn (k - 1) s = Inr v"
  shows "(case retry_fn clock fn attempts backoff s of
            (r, s', T) \<Rightarrow>
              r = Inr v \<and>
              s' = state_after fn k s \<and>
              T = failed_rounds backoff fn (k - 1) s @ [Invoke] \<and>
              invocations T = k \<and>
              last T = Invoke \<and>
              sleeps T = map (\<lambda>i. backoff * int i) [1..<k])"
proof -
  define m where "m = k - 1"
  have m: "Suc m = k" "int m < attempts" "int m = int k - 1"
    using assms(1,2) by (simp_all add: m_def)
  have acc: "\<forall>j<m. accepts_sleep (clock j) (backoff * (int j + 1))"
    using assms(3) by (simp add: m_def)
  have fn: "fn (state_after fn m s) = (Inr v, state_after fn (Suc m) s)"
    using assms(5) by (simp add: fn_at_state_after m_def)
  have "retry_fn clock fn attempts backoff s =
          retry_loop clock fn attempts backoff (int m)
            (if m = 0 then None else Some (projl (outcome fn (m - 1) s)))
            (state_after fn m s, [] @ failed_rounds backoff fn m s)"
    unfolding retry_fn_def using acc assms(4) m(2)
    by (intro retry_loop_fail_prefix) (simp_all add: m_def)
  also have "\<dots> = (Inr v, state_after fn (Suc m) s, ([] @ failed_rounds backoff fn m s) @ [Invoke])"
    using fn m(2) by (rule retry_loop_success)
  finally have eq: "retry_fn clock fn attempts backoff s =
      (Inr v, state_after fn k s, failed_rounds backoff fn m s @ [Invoke])"
    by (simp add: m)
  have inv: "invocations (failed_rounds backoff fn m s @ [Invoke]) = k"
    by (simp add: invocations_append invocations_failed_rounds m(1) [symmetric])
      (simp add: invocations_def)
  have sl: "sleeps (failed_rounds backoff fn m s @ [Invoke]) = map (\<lambda>i. backoff * int i) [1..<k]"
    by (simp add: sleeps_append sleeps_failed_rounds m(1) [symmetric] del: upt_Suc)
  show ?thesis
    unfolding eq using inv sl by (simp add: m_def)
qed

text \<open>The first attempt raises, the second returns \<open>True\<close>; the third is never made.\<close>

theorem retry_fn_first_success_witness:
  "(1::nat) \<le> 2 \<and> int 2 \<le> 3 \<and> accepts_sleep 3600 2 \<and>
   isl (outcome (\<lambda>n::nat. (if n = 0 then Inl (ClientError ''reset'') else Inr True, Suc n)) 0 0) \<and>
   outcome (\<lambda>n::nat. (if n = 0 then Inl (ClientError ''reset'') else Inr True, Suc n)) (2 - 1) 0 = Inr True \<and>
   retry_fn (\<lambda>j. 3600)
       (\<lambda>n::nat. (if n = 0 then Inl (ClientError ''reset'') else Inr True, Suc n)) 3 2 0 =
     (Inr True, 2, [Invoke, Log (Attempt_failed 1 (ClientError ''reset'')), Sleep 2, Invoke])"
proof -
  let ?F = "\<lambda>n::nat. (if n = 0 then Inl (ClientError ''reset'') else Inr True :: exn + bool, Suc n)"
  have st: "state_after ?F j 0 = j" for j by (induction j) (simp_all add: state_after_def)
  have h1: "\<forall>j < 2 - 1. isl (outcome ?F j 0)" by (simp add: outcome_def st)
  have h2: "outcome ?F (2 - 1) 0 = Inr True" by (simp add: outcome_def st)
  have a: "\<forall>j < 2 - 1. accepts_sleep ((\<lambda>j. 3600) j) (2 * (int j + 1))"
    by (auto simp: accepts_sleep_def max_sleep_def)
  have "accepts_sleep 3600 2" by (simp add: accepts_sleep_def max_sleep_def)
  then show ?thesis
    using retry_fn_first_success [of 2 3 "\<lambda>j. 3600" 2 ?F 0 True, OF _ _ a h1 h2]
    by (simp add: outcome_def st failed_rounds_def failed_round_def eval_nat_numeral
        split: prod.splits)
qed

text \<open>
  The claim as stated does not restrict the backoff unit. Here the function raises on
  its first invocation and would return \<open>True\<close> on its second, with three attempts
  allowed; with the unit \<open>-1\<close> the sleep after the first attempt raises \<open>ValueError\<close>, so
  the function is invoked once and its result is never returned.
\<close>

theorem retry_fn_first_success_counterexample:
  "isl (outcome (\<lambda>n::nat. (if n = 0 then Inl (ClientError ''reset'') else Inr True, Suc n)) 0 0) \<and>
   outcome (\<lambda>n::nat. (if n = 0 then Inl (ClientError ''reset'') else Inr True, Suc n)) 1 0 = Inr True \<and>
   retry_fn (\<lambda>j. 3600)
       (\<lambda>n::nat. (if n = 0 then Inl (ClientError ''reset'') else Inr True, Suc n)) 3 (- 1) 0 =
     (Inl (ValueError ''sleep length must be non-negative''), 1,
      [Invoke, Log (Attempt_failed 1 (ClientError ''reset''))])"
proof -
  let ?F = "\<lambda>n::nat. (if n = 0 then Inl (ClientError ''reset'') else Inr True :: exn + bool, Suc n)"
  have st: "state_after ?F j 0 = j" for j by (induction j) (simp_all add: state_after_def)
  have "retry_fn (\<lambda>j. 3600) ?F 3 (- 1) 0 =
     (Inl (ValueError ''sleep length must be non-negative''), 1,
      [] @ [Invoke, Log (Attempt_failed (0 + 1) (ClientError ''reset''))])"
    unfolding retry_fn_def
    by (rule retry_loop_sleep_raises) (simp_all add: time_sleep_def max_sleep_def)
  then show ?thesis by (simp add: outcome_def st)
qed

text \<open>An attempt count below one makes \<open>raise last_exc\<close> raise \<open>TypeError\<close> with no
  invocation at all.\<close>

lemma retry_fn_no_attempts:
  assumes "attempts \<le> 0"
  shows "retry_fn clock fn attempts backoff s =
         (Inl (TypeError ''exceptions must derive from BaseException''), s, [])"
  using assms unfolding retry_fn_def by (subst retry_loop.simps) simp


section \<open>The chunked transfer\<close>

lemma next_fault_frame:
  assumes "next_fault w = (f, w1)"
  shows "s3_objects w1 = s3_objects w" and "gcs_objects w1 = gcs_objects w"
    and "streams w1 = streams w" and "files w1 = files w"
  using assms by (auto simp: next_fault_def split: list.splits)

lemma next_fault_no_faults: "faults w = [] \<Longrightarrow> next_fault w = (None, w)"
  by (simp add: next_fault_def)

lemma stream_read_ok:
  assumes "stream_read sid amt w = (Inr chunk, w1)"
  shows "sid < length (streams w)" and "\<not> closed (streams w ! sid)"
    and "chunk = take amt (pending (streams w ! sid))"
    and "pending (streams w1 ! sid) = drop amt (pending (streams w ! sid))"
    and "gcs_objects w1 = gcs_objects w" and "s3_objects w1 = s3_objects w"
proof -
  obtain f w0 where nf: "next_fault w = (f, w0)" by (cases "next_fault w")
  note fr = next_fault_frame [OF nf]
  from assms nf have ok: "f = None" "sid < length (streams w0)" "\<not> closed (streams w0 ! sid)"
    by (auto simp: stream_read_def split: option.splits if_splits)
  from assms nf ok have w1: "w1 = w0\<lparr>streams := (streams w0)
      [sid := (streams w0 ! sid)\<lparr>pending := drop amt (pending (streams w0 ! sid))\<rparr>]\<rparr>"
    and ch: "chunk = take amt (pending (streams w0 ! sid))"
    by (auto simp: stream_read_def)
  show "sid < length (streams w)" "\<not> closed (streams w ! sid)"
    using ok fr by simp_all
  show "chunk = take amt (pending (streams w ! sid))" using ch fr by simp
  show "pending (streams w1 ! sid) = drop amt (pending (streams w ! sid))"
    using w1 ok fr by simp
  show "gcs_objects w1 = gcs_objects w" "s3_objects w1 = s3_objects w"
    using w1 fr by simp_all
qed

lemma writer_write_ok:
  assumes "writer_write buf chunk w = (Inr buf', w1)"
  shows "buf' = buf @ chunk" and "streams w1 = streams w"
    and "gcs_objects w1 = gcs_objects w" and "s3_objects w1 = s3_objects w"
proof -
  obtain f w0 where nf: "next_fault w = (f, w0)" by (cases "next_fault w")
  note fr = next_fault_frame [OF nf]
  from assms nf have "f = None" "w1 = w0" "buf' = buf @ chunk"
    by (auto simp: writer_write_def split: option.splits)
  with fr show "buf' = buf @ chunk" "streams w1 = streams w"
    "gcs_objects w1 = gcs_objects w" "s3_objects w1 = s3_objects w"
    by simp_all
qed

text \<open>When the loop ends without an exception, the writer holds what it held before,
  followed by every byte the stream had still to deliver.\<close>

lemma copy_chunks_complete:
  "copy_chunks sid buf w = ((None, out), w') \<Longrightarrow>
     out = buf @ pending (streams w ! sid) \<and> gcs_objects w' = gcs_objects w"
proof (induction sid buf w rule: copy_chunks.induct)
  case (1 sid buf w)
  obtain r w1 where rd: "stream_read sid chunk_size w = (r, w1)"
    by (cases "stream_read sid chunk_size w")
  show ?case
  proof (cases r)
    case (Inl e)
    with 1 rd show ?thesis by (subst (asm) copy_chunks.simps) simp
  next
    case (Inr chunk)
    note ok = stream_read_ok [OF rd [unfolded Inr]]
    show ?thesis
    proof (cases "chunk = []")
      case True
      with "1.prems" rd Inr have "out = buf" "w' = w1"
        by (subst (asm) copy_chunks.simps, simp)+
      moreover from True ok(3) have "pending (streams w ! sid) = []"
        by (simp add: chunk_size_def)
      ultimately show ?thesis using ok(5) by simp
    next
      case False
      obtain q w2 where wr: "writer_write buf chunk w1 = (q, w2)"
        by (cases "writer_write buf chunk w1")
      show ?thesis
      proof (cases q)
        case (Inl e)
        with "1.prems" rd \<open>r = Inr chunk\<close> False wr show ?thesis
          by (subst (asm) copy_chunks.simps) simp
      next
        case (Inr buf')
        note wok = writer_write_ok [OF wr [unfolded Inr]]
        from "1.prems" rd \<open>r = Inr chunk\<close> False wr Inr
        have rec: "copy_chunks sid buf' w2 = ((None, out), w')"
          by (subst (asm) copy_chunks.simps) simp
        have "out = buf' @ pending (streams w2 ! sid) \<and> gcs_objects w' = gcs_objects w2"
          using "1.IH" [OF rd [symmetric] \<open>r = Inr chunk\<close> False wr [symmetric] Inr rec] .
        then show ?thesis
          using wok ok by simp
      qed
    qed
  qed
qed


lemma writer_close_ok:
  assumes "writer_close bl buf w = (Inr u, w1)"
  shows "\<exists>g. truthy (bucket_name (blob_bucket bl)) = Some g \<and>
             gcs_objects w1 = (gcs_objects w)((g, blob_name bl) \<mapsto> buf)"
proof -
  obtain f w0 where nf: "next_fault w = (f, w0)" by (cases "next_fault w")
  note fr = next_fault_frame [OF nf]
  from assms nf fr show ?thesis
    by (auto simp: writer_close_def blob_path_def split: option.splits if_splits)
qed

lemma upload_stream_to_gcs_ok:
  assumes "upload_stream_to_gcs bucket_obj name sid w = (Inr u, w1)"
  shows "\<exists>g. truthy (bucket_name bucket_obj) = Some g \<and>
             gcs_objects w1 = (gcs_objects w)((g, name) \<mapsto> pending (streams w ! sid))"
proof -
  obtain x buf w0 where cc: "copy_chunks sid [] w = ((x, buf), w0)"
    by (cases "copy_chunks sid [] w") auto
  show ?thesis
  proof (cases x)
    case None
    from copy_chunks_complete [OF cc [unfolded None]]
    have buf: "buf = pending (streams w ! sid)" and g: "gcs_objects w0 = gcs_objects w"
      by simp_all
    from assms cc None have "writer_close (bucket_blob bucket_obj name) buf w0 = (Inr u, w1)"
      by (simp add: upload_stream_to_gcs_def)
    from writer_close_ok [OF this] buf g show ?thesis
      by (simp add: bucket_blob_def)
  next
    case (Some e)
    with assms cc show ?thesis
      by (auto simp: upload_stream_to_gcs_def split: prod.splits sum.splits)
  qed
qed

lemma s3_get_object_stream_ok:
  assumes "s3_get_object_stream bucket key w = (Inr (sid, sz), w1)"
  shows "\<exists>b obj. bucket = JStr b \<and> s3_objects w (b, key) = Some obj \<and>
           sid = length (streams w) \<and> sz = ContentLength obj \<and>
           streams w1 = streams w @ [\<lparr>pending = Body obj, closed = False\<rparr>] \<and>
           gcs_objects w1 = gcs_objects w \<and> s3_objects w1 = s3_objects w"
proof -
  obtain f w0 where nf: "next_fault w = (f, w0)" by (cases "next_fault w")
  note fr = next_fault_frame [OF nf]
  from assms nf fr show ?thesis
    by (auto simp: s3_get_object_stream_def split: json.splits option.splits if_splits)
qed

lemma close_ignoring_errors_frame:
  "gcs_objects (close_ignoring_errors sid w) = gcs_objects w"
proof -
  obtain f w0 where nf: "next_fault w = (f, w0)" by (cases "next_fault w")
  note fr = next_fault_frame [OF nf]
  from nf fr show ?thesis
    by (auto simp: close_ignoring_errors_def stream_close_def split: option.splits)
qed

text \<open>
  Claim C1. A transfer attempt that returns has written the source object to the
  destination bucket under the object's own key: the destination object is the source
  body as the attempt's \<open>get_object\<close> found it, so it has the same \<open>n \<ge> 0\<close> bytes in the
  same order, and no other destination object has changed. The loop reads the stream
  in chunks of 8 MiB.
\<close>

theorem transfer_writes_source_bytes:
  assumes "upload bucket_obj s3_bucket key w = (Inr ok, w')"
  shows "chunk_size = 8388608 \<and>
         (\<exists>b g obj. s3_bucket = JStr b \<and> truthy (bucket_name bucket_obj) = Some g \<and>
            s3_objects w (b, key) = Some obj \<and>
            gcs_objects w' = (gcs_objects w)((g, key) \<mapsto> Body obj) \<and>
            map_option length (gcs_objects w' (g, key)) = Some (length (Body obj)))"
proof -
  obtain r w1 where go: "s3_get_object_stream s3_bucket key w = (r, w1)"
    by (cases "s3_get_object_stream s3_bucket key w")
  from assms go obtain sid sz where r: "r = Inr (sid, sz)"
    by (cases r) (auto simp: upload_def)
  from s3_get_object_stream_ok [OF go [unfolded r]]
  obtain b obj where src: "s3_bucket = JStr b" "s3_objects w (b, key) = Some obj"
    and sid: "sid = length (streams w)"
    and st: "streams w1 = streams w @ [\<lparr>pending = Body obj, closed = False\<rparr>]"
    and g1: "gcs_objects w1 = gcs_objects w"
    by blast
  obtain q w2 where up: "upload_stream_to_gcs bucket_obj key sid w1 = (q, w2)"
    by (cases "upload_stream_to_gcs bucket_obj key sid w1")
  from assms go r up obtain u where q: "q = Inr u" and w': "w' = close_ignoring_errors sid w2"
    by (cases q) (auto simp: upload_def)
  from upload_stream_to_gcs_ok [OF up [unfolded q]]
  obtain g where g: "truthy (bucket_name bucket_obj) = Some g"
    and g2: "gcs_objects w2 = (gcs_objects w1)((g, key) \<mapsto> pending (streams w1 ! sid))"
    by blast
  have "pending (streams w1 ! sid) = Body obj" by (simp add: st sid)
  with g2 g1 w' have "gcs_objects w' = (gcs_objects w)((g, key) \<mapsto> Body obj)"
    by (simp add: close_ignoring_errors_frame)
  with src g show ?thesis by (simp add: chunk_size_def)
qed


subsection \<open>A run without faults\<close>

lemma stream_read_no_faults:
  assumes "faults w = []" and "sid < length (streams w)" and "\<not> closed (streams w ! sid)"
  shows "stream_read sid amt w =
           (Inr (take amt (pending (streams w ! sid))),
            w\<lparr>streams := (streams w)
               [sid := (streams w ! sid)\<lparr>pending := drop amt (pending (streams w ! sid))\<rparr>]\<rparr>)"
  using assms by (simp add: stream_read_def next_fault_no_faults)

lemma copy_chunks_no_faults:
  "faults w = [] \<Longrightarrow> sid < length (streams w) \<Longrightarrow> \<not> closed (streams w ! sid) \<Longrightarrow>
   copy_chunks sid buf w =
     ((None, buf @ pending (streams w ! sid)),
      w\<lparr>streams := (streams w)[sid := (streams w ! sid)\<lparr>pending := []\<rparr>]\<rparr>)"
proof (induction sid buf w rule: copy_chunks.induct)
  case (1 sid buf w)
  let ?p = "pending (streams w ! sid)"
  let ?w1 = "w\<lparr>streams := (streams w)[sid := (streams w ! sid)\<lparr>pending := drop chunk_size ?p\<rparr>]\<rparr>"
  have rd: "stream_read sid chunk_size w = (Inr (take chunk_size ?p), ?w1)"
    using "1.prems" by (rule stream_read_no_faults)
  show ?case
  proof (cases "take chunk_size ?p = []")
    case True
    then have "?p = []" by (simp add: chunk_size_def)
    with rd True show ?thesis
      by (subst copy_chunks.simps) simp
  next
    case False
    have wr: "writer_write buf (take chunk_size ?p) ?w1 = (Inr (buf @ take chunk_size ?p), ?w1)"
      using "1.prems" by (simp add: writer_write_def next_fault_no_faults)
    have "copy_chunks sid (buf @ take chunk_size ?p) ?w1 =
            ((None, (buf @ take chunk_size ?p) @ pending (streams ?w1 ! sid)),
             ?w1\<lparr>streams := (streams ?w1)[sid := (streams ?w1 ! sid)\<lparr>pending := []\<rparr>]\<rparr>)"
      using "1.prems" by (intro "1.IH" [OF rd [symmetric] refl False wr [symmetric] refl]) simp_all
    with rd False wr "1.prems" show ?thesis
      by (subst copy_chunks.simps) simp
  qed
qed

lemma writer_close_no_faults:
  assumes "faults w = []" and "name \<noteq> []" and "truthy (bucket_name bucket_obj) = Some g"
  shows "writer_close (bucket_blob bucket_obj name) buf w =
           (Inr (), w\<lparr>gcs_objects := (gcs_objects w)((g, name) \<mapsto> buf)\<rparr>)"
  using assms by (simp add: writer_close_def blob_path_def bucket_blob_def next_fault_no_faults)

text \<open>Without faults an attempt succeeds: it opens one more stream, drains and closes
  it, and commits the source body under the key.\<close>

lemma upload_no_faults:
  assumes "faults w = []" and "key \<noteq> []" and "truthy (bucket_name bucket_obj) = Some g"
    and "s3_objects w (b, key) = Some obj"
  shows "upload bucket_obj (JStr b) key w =
           (Inr True,
            w\<lparr>streams := streams w @ [\<lparr>pending = [], closed = True\<rparr>],
              gcs_objects := (gcs_objects w)((g, key) \<mapsto> Body obj)\<rparr>)"
proof -
  let ?sid = "length (streams w)"
  let ?w1 = "w\<lparr>streams := streams w @ [\<lparr>pending = Body obj, closed = False\<rparr>]\<rparr>"
  let ?w2 = "w\<lparr>streams := streams w @ [\<lparr>pending = [], closed = False\<rparr>]\<rparr>"
  let ?w3 = "?w2\<lparr>gcs_objects := (gcs_objects w)((g, key) \<mapsto> Body obj)\<rparr>"
  have get: "s3_get_object_stream (JStr b) key w = (Inr (?sid, ContentLength obj), ?w1)"
    using assms by (simp add: s3_get_object_stream_def next_fault_no_faults)
  have "copy_chunks ?sid [] ?w1 =
          ((None, [] @ pending (streams ?w1 ! ?sid)),
           ?w1\<lparr>streams := (streams ?w1)[?sid := (streams ?w1 ! ?sid)\<lparr>pending := []\<rparr>]\<rparr>)"
    using assms(1) by (intro copy_chunks_no_faults) simp_all
  then have cc: "copy_chunks ?sid [] ?w1 = ((None, Body obj), ?w2)" by simp
  have cl: "writer_close (bucket_blob bucket_obj key) (Body obj) ?w2 = (Inr (), ?w3)"
    using writer_close_no_faults [of ?w2 key bucket_obj g "Body obj"] assms by simp
  have up: "upload_stream_to_gcs bucket_obj key ?sid ?w1 = (Inr (), ?w3)"
    by (simp add: upload_stream_to_gcs_def cc cl)
  have "close_ignoring_errors ?sid ?w3 =
          w\<lparr>streams := streams w @ [\<lparr>pending = [], closed = True\<rparr>],
            gcs_objects := (gcs_objects w)((g, key) \<mapsto> Body obj)\<rparr>"
    using assms(1) by (simp add: close_ignoring_errors_def stream_close_def next_fault_no_faults)
  with get up show ?thesis by (simp add: upload_def)
qed


text \<open>The scenario's object, copied by one attempt.\<close>

theorem transfer_writes_source_bytes_witness:
  "fst (upload example_bucket (JStr ''photos'') ''my file+name.txt'' example_world) = Inr True \<and>
   gcs_objects (snd (upload example_bucket (JStr ''photos'') ''my file+name.txt'' example_world))
     (''backup'', ''my file+name.txt'') = Some [1, 2, 3]"
proof -
  let ?u = "upload example_bucket (JStr ''photos'') ''my file+name.txt'' example_world"
  have g: "truthy (bucket_name example_bucket) = Some ''backup''"
    by (simp add: example_bucket_def client_bucket_def)
  have s: "s3_objects example_world (''photos'', ''my file+name.txt'') =
             Some \<lparr>Body = [1, 2, 3], ContentLength = Some 3\<rparr>"
    by (simp add: example_world_def)
  have "faults example_world = []" by (simp add: example_world_def)
  from upload_no_faults [OF this _ g s] have ok: "fst ?u = Inr True" by simp
  then have "?u = (Inr True, snd ?u)" by (simp add: prod_eq_iff)
  from transfer_writes_source_bytes [OF this] g s
  have "gcs_objects (snd ?u) (''backup'', ''my file+name.txt'') = Some [1, 2, 3]"
    by auto
  with ok show ?thesis by simp
qed


section \<open>Normalizing the event\<close>

lemma and_then_Inr: "and_then m f = Inr y \<longleftrightarrow> (\<exists>x. m = Inr x \<and> f x = Inr y)"
  by (cases m) (simp_all add: and_then_def)

lemma subscript_Inr: "subscript v k = Inr x \<longleftrightarrow> get_member v k = Some x"
  by (cases v) (auto split: option.splits)

lemma subscript0_then_subscript:
  "subscript0 records = Inr r \<and> subscript r k = Inr s \<longleftrightarrow>
     (\<exists>rs. records = JArr (r # rs)) \<and> get_member r k = Some s"
  by (cases "(records)" rule: subscript0.cases) (auto simp: subscript_Inr)

lemma unquote_plus_value_Inr:
  "unquote_plus_value v = Inr k \<longleftrightarrow> (\<exists>raw. v = JStr raw \<and> k = unquote_plus raw)"
  by (cases v) auto

text \<open>The \<open>try\<close> block succeeds exactly on the documents that have a first record with an
  \<open>s3.bucket.name\<close> of any type and an \<open>s3.object.key\<close> that is a string; the key it
  yields is that string, decoded by one application of \<open>unquote_plus\<close>.\<close>

lemma normalize_Inr_iff:
  "normalize_event event = Inr (b, k) \<longleftrightarrow>
     container_name event = Some b \<and>
     (\<exists>raw. object_key event = Some (JStr raw) \<and> k = unquote_plus raw)"
proof -
  have "normalize_event event = Inr (b, k) \<longleftrightarrow>
      (\<exists>records r s bk ob raw.
          get_member event ''Records'' = Some records \<and>
          (subscript0 records = Inr r \<and> subscript r ''s3'' = Inr s) \<and>
          get_member s ''bucket'' = Some bk \<and> get_member bk ''name'' = Some b \<and>
          get_member s ''object'' = Some ob \<and> get_member ob ''key'' = Some (JStr raw) \<and>
          k = unquote_plus raw)"
    unfolding normalize_event_def and_then_Inr subscript_Inr unquote_plus_value_Inr
    by (auto simp: subscript_Inr)
  also have "\<dots> \<longleftrightarrow>
      (\<exists>r rs s bk ob raw.
          get_member event ''Records'' = Some (JArr (r # rs)) \<and> get_member r ''s3'' = Some s \<and>
          get_member s ''bucket'' = Some bk \<and> get_member bk ''name'' = Some b \<and>
          get_member s ''object'' = Some ob \<and> get_member ob ''key'' = Some (JStr raw) \<and>
          k = unquote_plus raw)"
    unfolding subscript0_then_subscript by blast
  also have "\<dots> \<longleftrightarrow> container_name event = Some b \<and>
     (\<exists>raw. object_key event = Some (JStr raw) \<and> k = unquote_plus raw)"
    by (auto simp: container_name_def object_key_def first_record_def path2_def
        split: option.splits json.splits list.splits)
  finally show ?thesis .
qed

lemma normalize_Inl_iff:
  "(\<exists>e. normalize_event event = Inl e) \<longleftrightarrow>
     container_name event = None \<or> \<not> is_string (object_key event)"
proof -
  have "(\<exists>e. normalize_event event = Inl e) \<longleftrightarrow> \<not> (\<exists>b k. normalize_event event = Inr (b, k))"
    by (cases "normalize_event event") auto
  also have "\<dots> \<longleftrightarrow> container_name event = None \<or> \<not> is_string (object_key event)"
    unfolding normalize_Inr_iff
    by (auto simp: is_string_def split: option.splits json.splits)
  finally show ?thesis .
qed


text \<open>
  Claim C6, as amended. When the first record's container name is absent, or its object
  key is absent or not a string (which covers every wrong shape of the enclosing
  structure), the handler fails at once with the exception of the failed lookup or
  decoding, logged as an invalid event: the world is untouched (no credentials file, no
  source stream, no destination request) and the trace holds the two log lines only,
  so there is no transfer attempt and no sleep.
\<close>

theorem malformed_event_aborts:
  assumes "container_name event = None \<or> \<not> is_string (object_key event)"
  shows "\<exists>e. normalize_event event = Inl e \<and>
           lambda_handler b64 env event w =
             (Inl e, w, [Log (Received_event event), Log (Invalid_event_format e)]) \<and>
           invocations (snd (snd (lambda_handler b64 env event w))) = 0 \<and>
           sleeps (snd (snd (lambda_handler b64 env event w))) = []"
proof -
  from assms obtain e where e: "normalize_event event = Inl e"
    using normalize_Inl_iff [of event] by blast
  then have "lambda_handler b64 env event w =
      (Inl e, w, [Log (Received_event event), Log (Invalid_event_format e)])"
    by (simp add: lambda_handler_def)
  with e show ?thesis by (simp add: invocations_def)
qed

text \<open>A record whose \<open>object\<close> has no \<open>key\<close>.\<close>

theorem malformed_event_aborts_witness:
  "object_key (JObj [(''Records'', JArr [JObj [(''s3'',
       JObj [(''bucket'', JObj [(''name'', JStr ''photos'')]), (''object'', JObj [])])]])]) = None \<and>
   lambda_handler Map.empty example_env
     (JObj [(''Records'', JArr [JObj [(''s3'',
       JObj [(''bucket'', JObj [(''name'', JStr ''photos'')]), (''object'', JObj [])])]])])
     example_world =
     (Inl (KeyError (JStr ''key'')), example_world,
      [Log (Received_event (JObj [(''Records'', JArr [JObj [(''s3'',
          JObj [(''bucket'', JObj [(''name'', JStr ''photos'')]), (''object'', JObj [])])]])])),
       Log (Invalid_event_format (KeyError (JStr ''key'')))])"
proof -
  let ?ev = "JObj [(''Records'', JArr [JObj [(''s3'',
       JObj [(''bucket'', JObj [(''name'', JStr ''photos'')]), (''object'', JObj [])])]])]"
  have k: "object_key ?ev = None"
    by (simp add: object_key_def first_record_def path2_def)
  then have "container_name ?ev = None \<or> \<not> is_string (object_key ?ev)"
    by (simp add: is_string_def)
  from malformed_event_aborts [OF this, of Map.empty example_env example_world]
  obtain e where "normalize_event ?ev = Inl e"
    and h: "lambda_handler Map.empty example_env ?ev example_world =
      (Inl e, example_world, [Log (Received_event ?ev), Log (Invalid_event_format e)])"
    by blast
  moreover have "normalize_event ?ev = Inl (KeyError (JStr ''key''))"
    by (simp add: normalize_event_def and_then_def)
  ultimately show ?thesis using k by simp
qed

text \<open>
  The claim as stated also promises this for a container name of the wrong shape. A
  name that is a number passes the \<open>try\<close> block: the handler builds the destination
  client, writing the credentials file, and fails only when \<open>get_object\<close> validates its
  parameters, without the invalid-event log line.
\<close>

theorem malformed_event_counterexample:
  "\<not> is_string (container_name (notification (JNum 42) (JStr ''a.txt''))) \<and>
   normalize_event (notification (JNum 42) (JStr ''a.txt'')) = Inr (JNum 42, ''a.txt'') \<and>
   fst (lambda_handler Map.empty example_env (notification (JNum 42) (JStr ''a.txt'')) example_world)
     = Inl ParamValidationError \<and>
   snd (snd (lambda_handler Map.empty example_env (notification (JNum 42) (JStr ''a.txt'')) example_world))
     = [Log (Received_event (notification (JNum 42) (JStr ''a.txt'')))] \<and>
   files (fst (snd (lambda_handler Map.empty example_env (notification (JNum 42) (JStr ''a.txt''))
     example_world))) tmp_path = Some ''{}''"
proof -
  have n: "normalize_event (notification (JNum 42) (JStr ''a.txt'')) = Inr (JNum 42, ''a.txt'')"
    by (simp add: notification_def normalize_event_def and_then_def unquote_plus_def unquote_def)
  have c: "\<not> is_string (container_name (notification (JNum 42) (JStr ''a.txt'')))"
    by (simp add: notification_def container_name_def first_record_def path2_def is_string_def)
  have i: "init_gcs_client Map.empty example_env example_world =
             (Inr (Client ''{}''), example_world\<lparr>files := [tmp_path \<mapsto> ''{}'']\<rparr>)"
    by (simp add: init_gcs_client_def example_env_def example_world_def write_file_def
        from_service_account_json_def next_fault_def)
  show ?thesis
    using c by (simp add: n lambda_handler_def i s3_get_object_stream_def)
qed


section \<open>Credentials\<close>

lemma write_file_no_faults:
  "faults w = [] \<Longrightarrow>
     write_file path content w = (Inr (), w\<lparr>files := (files w)(path \<mapsto> content)\<rparr>)"
  by (simp add: write_file_def next_fault_no_faults)

lemma build_client_no_faults:
  assumes "faults w = []"
  shows "(case write_file tmp_path sa_json w of
            (Inl e, w1) \<Rightarrow> (Inl e, w1)
          | (Inr u, w1) \<Rightarrow> from_service_account_json tmp_path w1) =
         (Inr (Client sa_json), w\<lparr>files := (files w)(tmp_path \<mapsto> sa_json)\<rparr>)"
  using assms
  by (simp add: write_file_no_faults from_service_account_json_def next_fault_no_faults)

text \<open>
  Claim C10. With both forms supplied, the raw one is used: whatever the encoded form
  holds and however it would decode, \<open>init_gcs_client\<close> behaves as if it were unset, and
  where the file system and the client library raise nothing it returns the client
  built from the raw secret, written to the credentials file.
\<close>

theorem raw_secret_takes_precedence:
  assumes "truthy (GCP_SA_KEY env) = Some raw" and "truthy (GCP_SA_KEY_B64 env) = Some enc"
  shows "init_gcs_client b64 env w = init_gcs_client b64' (env\<lparr>GCP_SA_KEY_B64 := other\<rparr>) w \<and>
         (faults w = [] \<longrightarrow>
            init_gcs_client b64 env w =
              (Inr (Client raw), w\<lparr>files := (files w)(tmp_path \<mapsto> raw)\<rparr>))"
  using assms(1) by (simp add: init_gcs_client_def build_client_no_faults)

theorem raw_secret_takes_precedence_witness:
  "truthy (GCP_SA_KEY (example_env\<lparr>GCP_SA_KEY_B64 := Some ''not base64!''\<rparr>)) = Some ''{}'' \<and>
   truthy (GCP_SA_KEY_B64 (example_env\<lparr>GCP_SA_KEY_B64 := Some ''not base64!''\<rparr>)) = Some ''not base64!'' \<and>
   faults example_world = [] \<and>
   init_gcs_client Map.empty (example_env\<lparr>GCP_SA_KEY_B64 := Some ''not base64!''\<rparr>) example_world =
     (Inr (Client ''{}''), example_world\<lparr>files := (files example_world)(tmp_path \<mapsto> ''{}'')\<rparr>)"
proof -
  let ?env = "example_env\<lparr>GCP_SA_KEY_B64 := Some ''not base64!''\<rparr>"
  have a: "truthy (GCP_SA_KEY ?env) = Some ''{}''" by (simp add: example_env_def)
  have b: "truthy (GCP_SA_KEY_B64 ?env) = Some ''not base64!''" by simp
  have c: "faults example_world = []" by (simp add: example_world_def)
  from raw_secret_takes_precedence [OF a b, of Map.empty example_world] a b c
  show ?thesis by simp
qed

text \<open>
  Claim C8, as amended. At least one of the two forms must be supplied. Where the file
  system and the client library raise nothing, \<open>init_gcs_client\<close> raises its
  \<open>RuntimeError\<close> exactly when neither form is set to a non-empty value. It does so inside
  the handler, once the event has been normalized and before any source or destination
  access: with neither form set, an event that normalizes fails with the \<open>RuntimeError\<close>
  and leaves the world untouched, and an event that does not fails as an invalid event.
\<close>

theorem credentials_checked_per_event:
  assumes "faults w = []"
  shows "(fst (init_gcs_client b64 env w) =
            Inl (RuntimeError ''GCP_SA_KEY or GCP_SA_KEY_B64 environment variable is required'')
          \<longleftrightarrow> truthy (GCP_SA_KEY env) = None \<and> truthy (GCP_SA_KEY_B64 env) = None) \<and>
         (truthy (GCP_SA_KEY env) = None \<and> truthy (GCP_SA_KEY_B64 env) = None \<longrightarrow>
            (\<forall>b k. normalize_event event = Inr (b, k) \<longrightarrow>
               lambda_handler b64 env event w =
                 (Inl (RuntimeError ''GCP_SA_KEY or GCP_SA_KEY_B64 environment variable is required''),
                  w, [Log (Received_event event)])) \<and>
            (\<forall>e. normalize_event event = Inl e \<longrightarrow>
               lambda_handler b64 env event w =
                 (Inl e, w, [Log (Received_event event), Log (Invalid_event_format e)])))"
proof -
  have 1: "fst (init_gcs_client b64 env w) =
            Inl (RuntimeError ''GCP_SA_KEY or GCP_SA_KEY_B64 environment variable is required'')
          \<longleftrightarrow> truthy (GCP_SA_KEY env) = None \<and> truthy (GCP_SA_KEY_B64 env) = None"
    using assms
    by (auto simp: init_gcs_client_def build_client_no_faults split: option.splits)
  have 2: "init_gcs_client b64 env w =
      (Inl (RuntimeError ''GCP_SA_KEY or GCP_SA_KEY_B64 environment variable is required''), w)"
    if "truthy (GCP_SA_KEY env) = None" "truthy (GCP_SA_KEY_B64 env) = None"
    using that by (simp add: init_gcs_client_def)
  show ?thesis
    using 1 2 by (auto simp: lambda_handler_def)
qed

text \<open>No credentials at all: a well-formed event meets the \<open>RuntimeError\<close>, an empty
  document the \<open>KeyError\<close> of its missing \<open>Records\<close>.\<close>

theorem credentials_checked_per_event_witness:
  "faults example_world = [] \<and>
   truthy (GCP_SA_KEY (example_env\<lparr>GCP_SA_KEY := None\<rparr>)) = None \<and>
   truthy (GCP_SA_KEY_B64 (example_env\<lparr>GCP_SA_KEY := None\<rparr>)) = None \<and>
   normalize_event (notification (JStr ''photos'') (JStr ''a.txt'')) = Inr (JStr ''photos'', ''a.txt'') \<and>
   lambda_handler Map.empty (example_env\<lparr>GCP_SA_KEY := None\<rparr>)
       (notification (JStr ''photos'') (JStr ''a.txt'')) example_world =
     (Inl (RuntimeError ''GCP_SA_KEY or GCP_SA_KEY_B64 environment variable is required''),
      example_world, [Log (Received_event (notification (JStr ''photos'') (JStr ''a.txt'')))]) \<and>
   normalize_event (JObj []) = Inl (KeyError (JStr ''Records'')) \<and>
   lambda_handler Map.empty (example_env\<lparr>GCP_SA_KEY := None\<rparr>) (JObj []) example_world =
     (Inl (KeyError (JStr ''Records'')), example_world,
      [Log (Received_event (JObj [])), Log (Invalid_event_format (KeyError (JStr ''Records'')))])"
proof -
  let ?env = "example_env\<lparr>GCP_SA_KEY := None\<rparr>"
  have f: "faults example_world = []" by (simp add: example_world_def)
  have a: "truthy (GCP_SA_KEY ?env) = None" "truthy (GCP_SA_KEY_B64 ?env) = None"
    by (simp_all add: example_env_def)
  have n1: "normalize_event (notification (JStr ''photos'') (JStr ''a.txt'')) = Inr (JStr ''photos'', ''a.txt'')"
    by (simp add: notification_def normalize_event_def and_then_def unquote_plus_def unquote_def)
  have n2: "normalize_event (JObj []) = Inl (KeyError (JStr ''Records''))"
    by (simp add: normalize_event_def and_then_def)
  show ?thesis
    using credentials_checked_per_event [OF f, of Map.empty ?env "notification (JStr ''photos'') (JStr ''a.txt'')"]
      credentials_checked_per_event [OF f, of Map.empty ?env "JObj []"] f a n1 n2
    by simp
qed

text \<open>
  The claim as stated asks for exactly one form and for a failure at startup. With both
  forms set \<open>init_gcs_client\<close> returns a client; and with none set, a malformed event is
  reported as such, so the missing credentials were not checked before the event was
  processed.
\<close>

theorem exactly_one_credential_counterexample:
  "truthy (GCP_SA_KEY (example_env\<lparr>GCP_SA_KEY_B64 := Some ''e30=''\<rparr>)) = Some ''{}'' \<and>
   truthy (GCP_SA_KEY_B64 (example_env\<lparr>GCP_SA_KEY_B64 := Some ''e30=''\<rparr>)) = Some ''e30='' \<and>
   fst (init_gcs_client [''e30='' \<mapsto> ''{}''] (example_env\<lparr>GCP_SA_KEY_B64 := Some ''e30=''\<rparr>) example_world)
     = Inr (Client ''{}'') \<and>
   fst (lambda_handler [''e30='' \<mapsto> ''{}''] (example_env\<lparr>GCP_SA_KEY := None\<rparr>) (JObj []) example_world)
     = Inl (KeyError (JStr ''Records''))"
  by (simp add: example_env_def example_world_def init_gcs_client_def build_client_no_faults
      lambda_handler_def normalize_event_def and_then_def)


section \<open>Decoding the key\<close>

















section \<open>The handler\<close>

lemma init_gcs_client_no_faults:
  assumes "faults w = []" and "init_gcs_client b64 env w = (Inr client, w1)"
  shows "\<exists>sa. w1 = w\<lparr>files := (files w)(tmp_path \<mapsto> sa)\<rparr>"
  using assms
  by (auto simp: init_gcs_client_def build_client_no_faults split: option.splits)

text \<open>A new blob handle has no size, so the comparison with the source size is never
  true: the check answers \<open>False\<close> or raises, whatever the destination holds.\<close>

lemma file_exists_and_same_size_never_true:
  "fst (file_exists_and_same_size bucket_obj name s3_size w) \<noteq> Inr True"
  by (auto simp: file_exists_and_same_size_def bucket_blob_def Let_def
      split: prod.splits sum.splits bool.splits)

lemma file_exists_and_same_size_no_faults:
  assumes "faults w = []" and "name \<noteq> []" and "truthy (bucket_name bucket_obj) = Some g"
  shows "file_exists_and_same_size bucket_obj name s3_size w = (Inr False, w)"
  using assms
  by (auto simp: file_exists_and_same_size_def blob_exists_def blob_path_def bucket_blob_def
      next_fault_no_faults split: bool.splits)

text \<open>
  The whole invocation when nothing raises: the handler opens a first source stream for
  the size, finds no reason to skip, and its single attempt opens a second stream,
  copies it and closes it. The first stream stays open.
\<close>

lemma lambda_handler_no_faults:
  assumes nf: "faults w = []"
    and ev: "normalize_event event = Inr (JStr b, key)"
    and init: "init_gcs_client b64 env w = (Inr client, w1)"
    and dst: "truthy (GCS_BUCKET env) = Some g"
    and src: "s3_objects w (b, key) = Some obj"
    and key: "key \<noteq> []"
    and att: "1 \<le> RETRY_ATTEMPTS env"
  shows "lambda_handler b64 env event w =
           (Inr replicated,
            w1\<lparr>streams := streams w @
                   [\<lparr>pending = Body obj, closed = False\<rparr>, \<lparr>pending = [], closed = True\<rparr>],
               gcs_objects := (gcs_objects w)((g, key) \<mapsto> Body obj)\<rparr>,
            [Log (Received_event event), Invoke, Log (Successfully_replicated (JStr b) key)])"
proof -
  let ?bo = "client_bucket client (GCS_BUCKET env)"
  let ?w2 = "w1\<lparr>streams := streams w @ [\<lparr>pending = Body obj, closed = False\<rparr>]\<rparr>"
  let ?w3 = "?w2\<lparr>streams := streams ?w2 @ [\<lparr>pending = [], closed = True\<rparr>],
                gcs_objects := (gcs_objects ?w2)((g, key) \<mapsto> Body obj)\<rparr>"
  from init_gcs_client_no_faults [OF nf init]
  obtain sa where w1: "w1 = w\<lparr>files := (files w)(tmp_path \<mapsto> sa)\<rparr>" ..
  have nf1: "faults w1 = []" and src1: "s3_objects w1 (b, key) = Some obj"
    and g1: "gcs_objects w1 = gcs_objects w"
    using nf src by (simp_all add: w1)
  have g: "truthy (bucket_name ?bo) = Some g" using dst by (simp add: client_bucket_def)
  have get: "s3_get_object_stream (JStr b) key w1 = (Inr (length (streams w), ContentLength obj), ?w2)"
    using nf1 src1 key by (simp add: s3_get_object_stream_def next_fault_no_faults w1)
  have nf2: "faults ?w2 = []" using nf1 by simp
  have chk: "file_exists_and_same_size ?bo key (ContentLength obj) ?w2 = (Inr False, ?w2)"
    using nf2 key g by (rule file_exists_and_same_size_no_faults)
  have "upload ?bo (JStr b) key ?w2 = (Inr True, ?w3)"
    using nf2 key g by (rule upload_no_faults) (simp add: src1)
  moreover have "0 < RETRY_ATTEMPTS env" using att by simp
  ultimately have retry:
    "retry_fn c (upload ?bo (JStr b) key) (RETRY_ATTEMPTS env) (RETRY_BACKOFF env) ?w2 =
       (Inr True, ?w3, [] @ [Invoke])" for c
    unfolding retry_fn_def by (rule retry_loop_success)
  show ?thesis
    by (simp add: lambda_handler_def ev init get chk retry g1)
qed

text \<open>An exception of the check itself is logged and dropped: the handler goes on to
  the transfer from the world the check left.\<close>

lemma check_failure_does_not_block:
  assumes "normalize_event event = Inr (s3_bucket, key)"
    and "init_gcs_client b64 env w = (Inr client, w1)"
    and "s3_get_object_stream s3_bucket key w1 = (Inr (sid, sz), w2)"
    and "file_exists_and_same_size (client_bucket client (GCS_BUCKET env)) key sz w2 = (Inl e, w3)"
    and "retry_fn (monotonic w3) (upload (client_bucket client (GCS_BUCKET env)) s3_bucket key)
           (RETRY_ATTEMPTS env) (RETRY_BACKOFF env) w3 = (r, w4, tr)"
  shows "lambda_handler b64 env event w =
           (case r of
              Inl e' \<Rightarrow>
                (Inl e', w4, [Log (Received_event event), Log (Idempotency_check_failed e)] @ tr)
            | Inr ok \<Rightarrow>
                (Inr replicated, w4,
                 [Log (Received_event event), Log (Idempotency_check_failed e)] @ tr @
                 [Log (Successfully_replicated s3_bucket key)]))"
  using assms by (simp add: lambda_handler_def split: sum.splits)

lemma unquote_plus_example: "unquote_plus ''my%20file%2Bname.txt'' = ''my file+name.txt''"
  by code_simp





subsection \<open>The scenario, run\<close>

lemma example_event:
  "container_name (notification (JStr ''photos'') (JStr ''my%20file%2Bname.txt'')) = Some (JStr ''photos'')"
  "object_key (notification (JStr ''photos'') (JStr ''my%20file%2Bname.txt'')) =
     Some (JStr ''my%20file%2Bname.txt'')"
  by (simp_all add: notification_def container_name_def object_key_def first_record_def path2_def)

lemma example_init:
  "faults w = [] \<Longrightarrow>
   init_gcs_client Map.empty example_env w =
     (Inr (Client ''{}''), w\<lparr>files := (files w)(tmp_path \<mapsto> ''{}'')\<rparr>)"
  by (simp add: init_gcs_client_def example_env_def build_client_no_faults)


lemma example_first_run:
  "lambda_handler Map.empty example_env
     (notification (JStr ''photos'') (JStr ''my%20file%2Bname.txt'')) example_world =
   (Inr replicated,
    example_world
      \<lparr>files := [tmp_path \<mapsto> ''{}''],
       streams := [\<lparr>pending = [1, 2, 3], closed = False\<rparr>, \<lparr>pending = [], closed = True\<rparr>],
       gcs_objects := [(''backup'', ''my file+name.txt'') \<mapsto> [1, 2, 3]]\<rparr>,
    [Log (Received_event (notification (JStr ''photos'') (JStr ''my%20file%2Bname.txt''))),
     Invoke, Log (Successfully_replicated (JStr ''photos'') ''my file+name.txt'')])"
proof -
  let ?ev = "notification (JStr ''photos'') (JStr ''my%20file%2Bname.txt'')"
  have f: "faults example_world = []" by (simp add: example_world_def)
  have ev: "normalize_event ?ev = Inr (JStr ''photos'', ''my file+name.txt'')"
    using example_event by (simp add: normalize_Inr_iff unquote_plus_example)
  have d: "truthy (GCS_BUCKET example_env) = Some ''backup''" by (simp add: example_env_def)
  have a: "1 \<le> RETRY_ATTEMPTS example_env" by (simp add: example_env_def)
  have s: "s3_objects example_world (''photos'', ''my file+name.txt'') =
             Some \<lparr>Body = [1, 2, 3], ContentLength = Some 3\<rparr>"
    by (simp add: example_world_def)
  from lambda_handler_no_faults [OF f ev example_init [OF f] d s _ a]
  show ?thesis by (simp add: example_world_def)
qed

text \<open>
  Claim C3, evaluated where it fails. The destination holds \<open>my file+name.txt\<close> with
  three bytes and the source size is three, yet the check answers \<open>False\<close>: it compares
  the source size with the \<open>size\<close> of a blob handle whose properties were never loaded.
\<close>

theorem same_size_object_not_recognized:
  "gcs_objects (example_world\<lparr>gcs_objects := [(''backup'', ''my file+name.txt'') \<mapsto> [1, 2, 3]]\<rparr>)
     (''backup'', ''my file+name.txt'') = Some [1, 2, 3] \<and>
   file_exists_and_same_size example_bucket ''my file+name.txt'' (Some 3)
     (example_world\<lparr>gcs_objects := [(''backup'', ''my file+name.txt'') \<mapsto> [1, 2, 3]]\<rparr>) =
   (Inr False, example_world\<lparr>gcs_objects := [(''backup'', ''my file+name.txt'') \<mapsto> [1, 2, 3]]\<rparr>)"
  by (simp add: file_exists_and_same_size_no_faults [where g = "''backup''"]
      example_world_def example_bucket_def client_bucket_def)

text \<open>
  Claim C4, evaluated where it fails. The notification is delivered twice and the source
  does not change. The second invocation finds the object of the first at the
  destination, does not skip, and transfers the object again.
\<close>

theorem replay_transfers_again:
  "fst (lambda_handler Map.empty example_env
         (notification (JStr ''photos'') (JStr ''my%20file%2Bname.txt''))
         (fst (snd (lambda_handler Map.empty example_env
            (notification (JStr ''photos'') (JStr ''my%20file%2Bname.txt'')) example_world)))) =
     Inr replicated \<and>
   snd (snd (lambda_handler Map.empty example_env
         (notification (JStr ''photos'') (JStr ''my%20file%2Bname.txt''))
         (fst (snd (lambda_handler Map.empty example_env
            (notification (JStr ''photos'') (JStr ''my%20file%2Bname.txt'')) example_world))))) =
     [Log (Received_event (notification (JStr ''photos'') (JStr ''my%20file%2Bname.txt''))),
      Invoke, Log (Successfully_replicated (JStr ''photos'') ''my file+name.txt'')] \<and>
   gcs_objects (fst (snd (lambda_handler Map.empty example_env
            (notification (JStr ''photos'') (JStr ''my%20file%2Bname.txt'')) example_world)))
     (''backup'', ''my file+name.txt'') = Some [1, 2, 3]"
proof -
  let ?ev = "notification (JStr ''photos'') (JStr ''my%20file%2Bname.txt'')"
  let ?w1 = "example_world
      \<lparr>files := [tmp_path \<mapsto> ''{}''],
       streams := [\<lparr>pending = [1, 2, 3], closed = False\<rparr>, \<lparr>pending = [], closed = True\<rparr>],
       gcs_objects := [(''backup'', ''my file+name.txt'') \<mapsto> [1, 2, 3]]\<rparr>"
  have f: "faults ?w1 = []" by (simp add: example_world_def)
  have ev: "normalize_event ?ev = Inr (JStr ''photos'', ''my file+name.txt'')"
    using example_event by (simp add: normalize_Inr_iff unquote_plus_example)
  have d: "truthy (GCS_BUCKET example_env) = Some ''backup''" by (simp add: example_env_def)
  have a: "1 \<le> RETRY_ATTEMPTS example_env" by (simp add: example_env_def)
  have s: "s3_objects ?w1 (''photos'', ''my file+name.txt'') =
             Some \<lparr>Body = [1, 2, 3], ContentLength = Some 3\<rparr>"
    by (simp add: example_world_def)
  from lambda_handler_no_faults [OF f ev example_init [OF f] d s _ a]
  show ?thesis by (simp add: example_first_run)
qed

text \<open>
  Claim C7, evaluated where it fails. After the handler has returned its success
  response, the stream it opened to learn the source size is still open; only the
  stream of the attempt was closed.
\<close>

theorem source_stream_left_open:
  "fst (lambda_handler Map.empty example_env
          (notification (JStr ''photos'') (JStr ''my%20file%2Bname.txt'')) example_world) =
     Inr replicated \<and>
   open_streams (fst (snd (lambda_handler Map.empty example_env
          (notification (JStr ''photos'') (JStr ''my%20file%2Bname.txt'')) example_world))) = [0]"
  by (simp add: example_first_run open_streams_def)


text \<open>The same on the exception path: a single attempt whose first read raises. The
  handler raises that exception and leaves both streams open, the attempt's too.\<close>

lemma failed_attempt_leaves_streams_open:
  "fst (lambda_handler Map.empty (example_env\<lparr>RETRY_ATTEMPTS := 1\<rparr>)
          (notification (JStr ''photos'') (JStr ''my%20file%2Bname.txt''))
          (example_world\<lparr>faults := [None, None, None, None, None, Some (ClientError ''reset'')]\<rparr>)) =
     Inl (ClientError ''reset'') \<and>
   open_streams (fst (snd (lambda_handler Map.empty (example_env\<lparr>RETRY_ATTEMPTS := 1\<rparr>)
          (notification (JStr ''photos'') (JStr ''my%20file%2Bname.txt''))
          (example_world\<lparr>faults := [None, None, None, None, None, Some (ClientError ''reset'')]\<rparr>)))) =
     [0, 1]"
proof -
  let ?ev = "notification (JStr ''photos'') (JStr ''my%20file%2Bname.txt'')"
  have ev: "normalize_event ?ev = Inr (JStr ''photos'', ''my file+name.txt'')"
    using example_event by (simp add: normalize_Inr_iff unquote_plus_example)
  show ?thesis
    by (simp add: lambda_handler_def ev example_env_def example_world_def init_gcs_client_def
        write_file_def from_service_account_json_def next_fault_def s3_get_object_stream_def
        file_exists_and_same_size_def blob_exists_def blob_path_def bucket_blob_def
        client_bucket_def retry_fn_def retry_loop.simps upload_def upload_stream_to_gcs_def
        copy_chunks.simps stream_read_def writer_close_def open_streams_def tmp_path_def)
qed

end
